theory Spec2Isabelle
  imports Complex_Main "HOL-Library.Log_Nat"
begin

section \<open>JavaScript numbers\<close>

text \<open>
  The engine of \<^verbatim>\<open>src/main.jsx\<close> computes with JavaScript numbers, that is with IEEE 754
  binary64 values.  A number is modelled as NaN, one of the two infinities, or a finite
  value given by the rational it denotes.  Every arithmetic operation computes the exact
  rational result and rounds it to the nearest binary64 value, ties to the even
  significand.  The two zeros are identified: the engine never divides by a computed zero
  (every variable denominator is tested with \<^verbatim>\<open>> 0\<close> first), so the sign of a zero cannot
  be observed in its results.
\<close>

datatype jsnum = NaN | PInf | NInf | Fin rat

definition pow2 :: "int \<Rightarrow> rat" where
  "pow2 k = (if 0 \<le> k then 2 ^ nat k else 1 / 2 ^ nat (- k))"

text \<open>
  The binary exponent of a positive rational \<open>q\<close>, the integer \<open>e\<close> with
  \<open>pow2 e \<le> q < pow2 (e + 1)\<close>, from the bit length of \<open>\<lfloor>q\<rfloor>\<close> or of \<open>\<lfloor>1 / q\<rfloor>\<close>.
\<close>

definition expo :: "rat \<Rightarrow> int" where
  "expo q = (if 1 \<le> q then bitlen \<lfloor>q\<rfloor> - 1
             else let j = bitlen \<lfloor>1 / q\<rfloor> - 1
                  in if 1 / q = pow2 j then - j else - j - 1)"

text \<open>Rounding to the nearest integer, ties to even.\<close>

definition round_half_even :: "rat \<Rightarrow> int" where
  "round_half_even x = (let f = \<lfloor>x\<rfloor>; r = x - of_int f
                        in if r < 1 / 2 then f
                           else if 1 / 2 < r then f + 1
                           else if even f then f else f + 1)"

text \<open>
  Rounding of an exact result to binary64.  A positive magnitude \<open>q\<close> with binary
  exponent \<open>e\<close> is rounded to a multiple of \<open>2^(e - 52)\<close> (53 significant bits); the least
  exponent is \<open>-1022\<close>, below it the spacing stays \<open>2^-1074\<close> (subnormal numbers).  The
  result overflows to an infinity when the rounded magnitude reaches \<open>2^1024\<close>.
\<close>

definition round_magnitude :: "rat \<Rightarrow> rat" where
  "round_magnitude q = (let u = pow2 (max (expo q) (- 1022) - 52)
                        in of_int (round_half_even (q / u)) * u)"

definition rnd :: "rat \<Rightarrow> jsnum" where
  "rnd q = (if q = 0 then Fin 0
            else let v = round_magnitude \<bar>q\<bar>
                 in if pow2 1024 \<le> v then (if 0 < q then PInf else NInf)
                    else Fin (if 0 < q then v else - v))"

text \<open>A decimal literal of the source denotes the binary64 value nearest to it.\<close>

definition lit :: "rat \<Rightarrow> jsnum" where
  "lit q = rnd q"

fun js_neg :: "jsnum \<Rightarrow> jsnum" where
  "js_neg NaN = NaN"
| "js_neg PInf = NInf"
| "js_neg NInf = PInf"
| "js_neg (Fin a) = Fin (- a)"

fun js_add :: "jsnum \<Rightarrow> jsnum \<Rightarrow> jsnum" where
  "js_add (Fin a) (Fin b) = rnd (a + b)"
| "js_add NaN _ = NaN"
| "js_add _ NaN = NaN"
| "js_add PInf NInf = NaN"
| "js_add NInf PInf = NaN"
| "js_add PInf _ = PInf"
| "js_add NInf _ = NInf"
| "js_add _ PInf = PInf"
| "js_add _ NInf = NInf"

definition js_sub :: "jsnum \<Rightarrow> jsnum \<Rightarrow> jsnum" where
  "js_sub x y = js_add x (js_neg y)"

text \<open>The sign of a number: \<open>1\<close>, \<open>0\<close> or \<open>-1\<close>; NaN has none.\<close>

fun js_sign :: "jsnum \<Rightarrow> int option" where
  "js_sign NaN = None"
| "js_sign PInf = Some 1"
| "js_sign NInf = Some (- 1)"
| "js_sign (Fin a) = Some (if 0 < a then 1 else if a < 0 then - 1 else 0)"

definition signed_inf :: "int \<Rightarrow> jsnum" where
  "signed_inf s = (if 0 < s then PInf else if s < 0 then NInf else NaN)"

fun js_mul :: "jsnum \<Rightarrow> jsnum \<Rightarrow> jsnum" where
  "js_mul (Fin a) (Fin b) = rnd (a * b)"
| "js_mul x y = (case (js_sign x, js_sign y) of
                   (Some s, Some t) \<Rightarrow> signed_inf (s * t)
                 | _ \<Rightarrow> NaN)"

text \<open>
  Division.  A finite number divided by an infinity is zero, an infinity divided by an
  infinity is NaN, and a division by zero gives NaN for \<open>0 / 0\<close> and otherwise an infinity
  with the sign of the numerator (the zero being the positive one).
\<close>

fun js_div :: "jsnum \<Rightarrow> jsnum \<Rightarrow> jsnum" where
  "js_div (Fin a) (Fin b) =
     (if b = 0 then (if a = 0 then NaN else if 0 < a then PInf else NInf)
      else rnd (a / b))"
| "js_div NaN _ = NaN"
| "js_div _ NaN = NaN"
| "js_div (Fin a) _ = Fin 0"
| "js_div PInf (Fin b) = (if 0 \<le> b then PInf else NInf)"
| "js_div NInf (Fin b) = (if 0 \<le> b then NInf else PInf)"
| "js_div _ _ = NaN"

text \<open>Comparisons: every comparison with NaN is false.\<close>

fun js_lt :: "jsnum \<Rightarrow> jsnum \<Rightarrow> bool" where
  "js_lt NaN _ = False"
| "js_lt _ NaN = False"
| "js_lt (Fin a) (Fin b) = (a < b)"
| "js_lt _ NInf = False"
| "js_lt PInf _ = False"
| "js_lt NInf _ = True"
| "js_lt _ PInf = True"

definition js_gt :: "jsnum \<Rightarrow> jsnum \<Rightarrow> bool" where
  "js_gt x y = js_lt y x"

fun js_le :: "jsnum \<Rightarrow> jsnum \<Rightarrow> bool" where
  "js_le NaN _ = False"
| "js_le _ NaN = False"
| "js_le x y = (\<not> js_lt y x)"

definition js_ge :: "jsnum \<Rightarrow> jsnum \<Rightarrow> bool" where
  "js_ge x y = js_le y x"

text \<open>\<^verbatim>\<open>Math.min\<close>, \<^verbatim>\<open>Math.max\<close>: NaN as soon as an argument is NaN.\<close>

fun Math_min :: "jsnum \<Rightarrow> jsnum \<Rightarrow> jsnum" where
  "Math_min NaN _ = NaN"
| "Math_min _ NaN = NaN"
| "Math_min x y = (if js_lt y x then y else x)"

fun Math_max :: "jsnum \<Rightarrow> jsnum \<Rightarrow> jsnum" where
  "Math_max NaN _ = NaN"
| "Math_max _ NaN = NaN"
| "Math_max x y = (if js_lt x y then y else x)"

text \<open>
  \<^verbatim>\<open>Math.round\<close>: the integer nearest to the argument, a tie going up (towards
  \<open>+\<infinity>\<close>).  The result is exact: a binary64 value of magnitude \<open>2^52\<close> or more is an
  integer already.
\<close>

fun Math_round :: "jsnum \<Rightarrow> jsnum" where
  "Math_round (Fin a) = Fin (of_int \<lfloor>a + 1 / 2\<rfloor>)"
| "Math_round x = x"

text \<open>Truthiness of a number, as \<^verbatim>\<open>||\<close> and \<^verbatim>\<open>if\<close> test it: zero and NaN are falsy.\<close>

fun truthy_num :: "jsnum \<Rightarrow> bool" where
  "truthy_num NaN = False"
| "truthy_num (Fin a) = (a \<noteq> 0)"
| "truthy_num _ = True"

subsection \<open>Numbers as text\<close>

text \<open>
  The decimal digits of a natural number, and the text of a number.  The default
  rendering of a number (\<^verbatim>\<open>String(x)\<close>, used by template literals and by \<^verbatim>\<open>toFixed\<close> for
  large arguments) writes the shortest digits that read back as the number.  It is
  spelled out for the three special values and for the integers of magnitude below
  \<open>2^53\<close>: every integer up to there is a binary64 value, so the shortest digits are
  the decimal expansion of the integer.  For any other number the rendering is kept
  symbolic as \<open>Shown x s\<close>: the digits of \<open>x\<close> followed by the text \<open>s\<close>.
\<close>

datatype jstext = Chars string | Shown jsnum string

definition digit_char :: "nat \<Rightarrow> char" where
  "digit_char d = ''0123456789'' ! d"

fun digits :: "nat \<Rightarrow> string" where
  "digits n = (if n < 10 then [digit_char n]
               else digits (n div 10) @ [digit_char (n mod 10)])"

declare digits.simps [simp del]

fun ToString :: "jsnum \<Rightarrow> string \<Rightarrow> jstext" where
  "ToString NaN s = Chars (''NaN'' @ s)"
| "ToString PInf s = Chars (''Infinity'' @ s)"
| "ToString NInf s = Chars (''-Infinity'' @ s)"
| "ToString (Fin q) s =
     (if of_int \<lfloor>q\<rfloor> = q \<and> \<bar>q\<bar> < 2 ^ 53
      then Chars ((if q < 0 then ''-'' else []) @ digits (nat \<bar>\<lfloor>q\<rfloor>\<bar>) @ s)
      else Shown (Fin q) s)"

text \<open>
  \<^verbatim>\<open>x.toFixed(f)\<close>: for a finite \<open>x\<close> of magnitude below \<open>10^21\<close>, the integer \<open>n\<close> with
  \<open>n / 10^f\<close> nearest to \<open>\<bar>x\<bar>\<close> (the larger \<open>n\<close> on a tie), written with \<open>f\<close> fraction digits
  and a minus sign when \<open>x < 0\<close>; otherwise the default rendering of \<open>x\<close>.
\<close>

definition toFixed_n :: "nat \<Rightarrow> rat \<Rightarrow> nat" where
  "toFixed_n f q = nat \<lfloor>\<bar>q\<bar> * 10 ^ f + 1 / 2\<rfloor>"

definition pad_zeros :: "nat \<Rightarrow> string \<Rightarrow> string" where
  "pad_zeros k m = replicate (k - length m) CHR ''0'' @ m"

fun toFixed :: "nat \<Rightarrow> jsnum \<Rightarrow> jstext" where
  "toFixed f (Fin q) =
     (if \<bar>q\<bar> < 10 ^ 21
      then let m = pad_zeros (f + 1) (digits (toFixed_n f q));
               k = length m
           in Chars ((if q < 0 then ''-'' else []) @ take (k - f) m
                     @ (if f = 0 then [] else ''.'' @ drop (k - f) m))
      else ToString (Fin q) [])"
| "toFixed f x = ToString x []"

text \<open>
  \<^verbatim>\<open>parseFloat(x.toFixed(f))\<close>: the decimal numeral that \<^verbatim>\<open>toFixed\<close> writes, read back as
  the nearest binary64 value.  Where \<^verbatim>\<open>toFixed\<close> falls back on the default rendering,
  reading it back gives \<open>x\<close> again.
\<close>

fun parseFloat_toFixed :: "nat \<Rightarrow> jsnum \<Rightarrow> jsnum" where
  "parseFloat_toFixed f (Fin q) =
     (if \<bar>q\<bar> < 10 ^ 21
      then let v = of_nat (toFixed_n f q) / 10 ^ f
           in rnd (if q < 0 then - v else v)
      else Fin q)"
| "parseFloat_toFixed f x = x"

subsection \<open>Field values\<close>

text \<open>
  A field of the form state holds a primitive value: nothing, a boolean (a checkbox), a
  number (a number input), or a string (a blank input, a select box).  \<^verbatim>\<open>Number(v)\<close>
  converts it to a number.  A string is converted by the grammar of numeric strings:
  surrounding white space is dropped, the empty string is \<open>0\<close>, then come the signed
  decimal literals (with \<^verbatim>\<open>Infinity\<close>, a fraction part, an exponent part) and the unsigned
  binary, octal and hexadecimal integers; any other string is NaN.  The value of a
  literal is rounded to binary64.
\<close>

datatype jsval = Undefined | Null | Bool bool | Num jsnum | Str string

definition StrWhiteSpaceChar :: "char \<Rightarrow> bool" where
  "StrWhiteSpaceChar c =
     (c \<in> set [CHR 0x09, CHR 0x0A, CHR 0x0B, CHR 0x0C, CHR 0x0D, CHR 0x20, CHR 0xA0])"

definition trim :: "string \<Rightarrow> string" where
  "trim s = rev (dropWhile StrWhiteSpaceChar (rev (dropWhile StrWhiteSpaceChar s)))"

text \<open>The value of a digit in base \<open>b\<close> (\<open>b \<le> 16\<close>), if the character is one.\<close>

definition digit_value :: "nat \<Rightarrow> char \<Rightarrow> nat option" where
  "digit_value b c =
     (let n = (of_char c :: nat);
          v = (if 48 \<le> n \<and> n \<le> 57 then n - 48
               else if 97 \<le> n \<and> n \<le> 102 then n - 87
               else if 65 \<le> n \<and> n \<le> 70 then n - 55
               else 16)
      in if v < b then Some v else None)"

definition is_digit :: "nat \<Rightarrow> char \<Rightarrow> bool" where
  "is_digit b c = (digit_value b c \<noteq> None)"

definition digits_value :: "nat \<Rightarrow> string \<Rightarrow> nat" where
  "digits_value b s = foldl (\<lambda>acc c. acc * b + the (digit_value b c)) 0 s"

definition pow10 :: "int \<Rightarrow> rat" where
  "pow10 k = (if 0 \<le> k then 10 ^ nat k else 1 / 10 ^ nat (- k))"

text \<open>\<^verbatim>\<open>0x\<close>, \<^verbatim>\<open>0o\<close> and \<^verbatim>\<open>0b\<close> integers.\<close>

definition NonDecimalIntegerLiteral :: "string \<Rightarrow> nat option" where
  "NonDecimalIntegerLiteral s =
     (case s of
        z # p # ds \<Rightarrow>
          (let b = (if p = CHR ''x'' \<or> p = CHR ''X'' then 16
                    else if p = CHR ''o'' \<or> p = CHR ''O'' then 8
                    else if p = CHR ''b'' \<or> p = CHR ''B'' then 2
                    else 0)
           in if z = CHR ''0'' \<and> b \<noteq> 0 \<and> ds \<noteq> [] \<and> list_all (is_digit b) ds
              then Some (digits_value b ds) else None)
      | _ \<Rightarrow> None)"

text \<open>The exponent part: empty, or \<^verbatim>\<open>e\<close> and a signed integer.\<close>

definition ExponentPart :: "string \<Rightarrow> int option" where
  "ExponentPart s =
     (case s of
        [] \<Rightarrow> Some 0
      | c # r \<Rightarrow>
          (if c = CHR ''e'' \<or> c = CHR ''E''
           then let neg = (case r of x # _ \<Rightarrow> x = CHR ''-'' | [] \<Rightarrow> False);
                    ds = (case r of x # t \<Rightarrow> if x = CHR ''+'' \<or> x = CHR ''-'' then t else r
                                 | [] \<Rightarrow> r)
                in if ds \<noteq> [] \<and> list_all (is_digit 10) ds
                   then Some (if neg then - int (digits_value 10 ds) else int (digits_value 10 ds))
                   else None
           else None))"

text \<open>An unsigned decimal literal other than \<^verbatim>\<open>Infinity\<close>: digits, a fraction, an exponent.\<close>

definition StrUnsignedDecimalLiteral :: "string \<Rightarrow> rat option" where
  "StrUnsignedDecimalLiteral s =
     (let ip = takeWhile (is_digit 10) s;
          r1 = dropWhile (is_digit 10) s;
          dot = (case r1 of c # _ \<Rightarrow> c = CHR ''.'' | [] \<Rightarrow> False);
          fp = (if dot then takeWhile (is_digit 10) (tl r1) else []);
          r2 = (if dot then dropWhile (is_digit 10) (tl r1) else r1)
      in if ip = [] \<and> fp = [] then None
         else case ExponentPart r2 of
                None \<Rightarrow> None
              | Some e \<Rightarrow>
                  Some ((of_nat (digits_value 10 ip)
                         + of_nat (digits_value 10 fp) / 10 ^ length fp) * pow10 e))"

definition StrDecimalLiteral :: "string \<Rightarrow> jsnum" where
  "StrDecimalLiteral s =
     (let neg = (case s of c # _ \<Rightarrow> c = CHR ''-'' | [] \<Rightarrow> False);
          u = (case s of c # r \<Rightarrow> if c = CHR ''+'' \<or> c = CHR ''-'' then r else s | [] \<Rightarrow> s)
      in if u = ''Infinity'' then (if neg then NInf else PInf)
         else case StrUnsignedDecimalLiteral u of
                None \<Rightarrow> NaN
              | Some q \<Rightarrow> rnd (if neg then - q else q))"

definition StringToNumber :: "string \<Rightarrow> jsnum" where
  "StringToNumber s =
     (let t = trim s
      in if t = [] then Fin 0
         else case NonDecimalIntegerLiteral t of
                Some n \<Rightarrow> rnd (of_nat n)
              | None \<Rightarrow> StrDecimalLiteral t)"

fun Number :: "jsval \<Rightarrow> jsnum" where
  "Number Undefined = NaN"
| "Number Null = Fin 0"
| "Number (Bool b) = (if b then Fin 1 else Fin 0)"
| "Number (Num x) = x"
| "Number (Str s) = StringToNumber s"

text \<open>Truthiness of a value.\<close>

fun truthy :: "jsval \<Rightarrow> bool" where
  "truthy Undefined = False"
| "truthy Null = False"
| "truthy (Bool b) = b"
| "truthy (Num x) = truthy_num x"
| "truthy (Str s) = (s \<noteq> [])"

text \<open>\<^verbatim>\<open>x || d\<close> on numbers.\<close>

definition or_else :: "jsnum \<Rightarrow> jsnum \<Rightarrow> jsnum" where
  "or_else x d = (if truthy_num x then x else d)"

section \<open>The weight model\<close>

record weight_set =
  paymentHistory :: jsnum
  utilization :: jsnum
  accountAge :: jsnum
  creditMix :: jsnum
  newCredit :: jsnum

definition baseWeights :: weight_set where
  "baseWeights = \<lparr> paymentHistory = lit (35 / 100), utilization = lit (30 / 100),
                   accountAge = lit (15 / 100), creditMix = lit (10 / 100),
                   newCredit = lit (10 / 100) \<rparr>"

text \<open>1. Adjust for FICO tier.\<close>

definition tier_high :: "weight_set \<Rightarrow> weight_set" where
  "tier_high w = w\<lparr> paymentHistory := lit (25 / 100), utilization := lit (40 / 100),
                     accountAge := lit (20 / 100) \<rparr>"

definition tier_low :: "weight_set \<Rightarrow> weight_set" where
  "tier_low w = w\<lparr> paymentHistory := lit (45 / 100), utilization := lit (25 / 100),
                    newCredit := lit (15 / 100) \<rparr>"

definition adjust_tier :: "jsnum \<Rightarrow> weight_set \<Rightarrow> weight_set" where
  "adjust_tier ficoScore w =
     (if js_ge ficoScore (Fin 740) then tier_high w
      else if js_le ficoScore (Fin 580) then tier_low w
      else w)"

text \<open>2. Adjust for DTI; the debt-to-income ratio is \<open>1\<close> when there is no income.\<close>

definition debt_to_income :: "jsnum \<Rightarrow> jsnum \<Rightarrow> jsnum" where
  "debt_to_income totalDebt monthlyIncome =
     (if js_gt monthlyIncome (Fin 0)
      then js_div totalDebt (js_mul monthlyIncome (Fin 12))
      else Fin 1)"

definition dti_rule :: "weight_set \<Rightarrow> weight_set" where
  "dti_rule w =
     (let w1 = w\<lparr> utilization :=
                    Math_min (lit (45 / 100)) (js_add (utilization w) (lit (5 / 100))) \<rparr>
      in w1\<lparr> paymentHistory :=
                Math_max (lit (25 / 100)) (js_sub (paymentHistory w1) (lit (5 / 100))) \<rparr>)"

definition adjust_dti :: "jsnum \<Rightarrow> jsnum \<Rightarrow> weight_set \<Rightarrow> weight_set" where
  "adjust_dti totalDebt monthlyIncome w =
     (let dti = debt_to_income totalDebt monthlyIncome
      in if js_gt dti (lit (45 / 100)) then dti_rule w else w)"

text \<open>Check overall utilization if a limit is provided.\<close>

definition overall_rule :: "weight_set \<Rightarrow> weight_set" where
  "overall_rule w =
     w\<lparr> utilization :=
          Math_max (lit (20 / 100)) (js_sub (utilization w) (lit (5 / 100))) \<rparr>"

definition adjust_overall :: "jsnum \<Rightarrow> jsnum \<Rightarrow> weight_set \<Rightarrow> weight_set" where
  "adjust_overall totalDebt totalCreditLimit w =
     (if js_gt totalCreditLimit (Fin 0)
      then let trueOverallUtilization = js_mul (js_div totalDebt totalCreditLimit) (Fin 100)
           in if js_lt trueOverallUtilization (Fin 30) then overall_rule w else w
      else w)"

text \<open>3. Adjust for profile anchors (positive accounts).\<close>

definition anchors_rule :: "weight_set \<Rightarrow> weight_set" where
  "anchors_rule w =
     (let w1 = w\<lparr> paymentHistory :=
                    Math_max (lit (30 / 100)) (js_sub (paymentHistory w) (lit (5 / 100))) \<rparr>
      in w1\<lparr> creditMix :=
                Math_min (lit (20 / 100)) (js_add (creditMix w1) (lit (5 / 100))) \<rparr>)"

definition adjust_anchors :: "jsnum \<Rightarrow> weight_set \<Rightarrow> weight_set" where
  "adjust_anchors positiveAccounts w =
     (if js_gt positiveAccounts (Fin 0) then anchors_rule w else w)"

text \<open>4. Adjust for account age.\<close>

definition age_young :: "weight_set \<Rightarrow> weight_set" where
  "age_young w =
     (let w1 = w\<lparr> accountAge :=
                    Math_max (lit (5 / 100)) (js_sub (accountAge w) (lit (5 / 100))) \<rparr>
      in w1\<lparr> newCredit :=
                Math_min (lit (20 / 100)) (js_add (newCredit w1) (lit (5 / 100))) \<rparr>)"

definition age_old :: "weight_set \<Rightarrow> weight_set" where
  "age_old w =
     w\<lparr> accountAge :=
          Math_min (lit (25 / 100)) (js_add (accountAge w) (lit (5 / 100))) \<rparr>"

definition adjust_age :: "jsnum \<Rightarrow> weight_set \<Rightarrow> weight_set" where
  "adjust_age oldestAccountAge w =
     (if js_lt oldestAccountAge (Fin 4) then age_young w
      else if js_gt oldestAccountAge (Fin 10) then age_old w
      else w)"

text \<open>
  5. Normalize: the sum is the left fold of \<^verbatim>\<open>+\<close> over the five values in the order of the
  keys, from \<open>0\<close>; every weight is divided by it and rounded to four decimals.
\<close>

definition weight_sum :: "weight_set \<Rightarrow> jsnum" where
  "weight_sum w =
     foldl js_add (Fin 0)
       [paymentHistory w, utilization w, accountAge w, creditMix w, newCredit w]"

definition normalize :: "weight_set \<Rightarrow> weight_set" where
  "normalize w =
     (let sum = weight_sum w
      in \<lparr> paymentHistory = parseFloat_toFixed 4 (js_div (paymentHistory w) sum),
           utilization = parseFloat_toFixed 4 (js_div (utilization w) sum),
           accountAge = parseFloat_toFixed 4 (js_div (accountAge w) sum),
           creditMix = parseFloat_toFixed 4 (js_div (creditMix w) sum),
           newCredit = parseFloat_toFixed 4 (js_div (newCredit w) sum) \<rparr>)"

text \<open>The weights before normalization, and \<^verbatim>\<open>calculateWeights\<close>.\<close>

definition adjusted_weights ::
  "jsnum \<Rightarrow> jsnum \<Rightarrow> jsnum \<Rightarrow> jsnum \<Rightarrow> jsnum \<Rightarrow> jsnum \<Rightarrow> weight_set" where
  "adjusted_weights ficoScore totalDebt monthlyIncome positiveAccounts oldestAccountAge
       totalCreditLimit =
     adjust_age oldestAccountAge
       (adjust_anchors positiveAccounts
         (adjust_overall totalDebt totalCreditLimit
           (adjust_dti totalDebt monthlyIncome
             (adjust_tier ficoScore baseWeights))))"

definition calculateWeights ::
  "jsnum \<Rightarrow> jsnum \<Rightarrow> jsnum \<Rightarrow> jsnum \<Rightarrow> jsnum \<Rightarrow> jsnum \<Rightarrow> weight_set" where
  "calculateWeights ficoScore totalDebt monthlyIncome positiveAccounts oldestAccountAge
       totalCreditLimit =
     normalize (adjusted_weights ficoScore totalDebt monthlyIncome positiveAccounts
                  oldestAccountAge totalCreditLimit)"

subsection \<open>The weights as a mutable object\<close>

text \<open>
  \<^verbatim>\<open>calculateWeights\<close> builds its result in place: it creates the object \<^verbatim>\<open>baseWeights\<close>,
  assigns to its properties rule by rule, and overwrites every property in the final
  \<^verbatim>\<open>for ... in\<close> loop.  Here the same function over an explicit store of objects: an
  object is the list of its properties in insertion order, the store maps addresses to
  objects and knows the next free address.
\<close>

type_synonym object = "(string \<times> jsnum) list"

record store =
  cells :: "nat \<Rightarrow> object option"
  fresh :: nat

definition alloc :: "object \<Rightarrow> store \<Rightarrow> nat \<times> store" where
  "alloc ob s = (fresh s, s\<lparr> cells := (cells s)(fresh s \<mapsto> ob), fresh := Suc (fresh s) \<rparr>)"

text \<open>Reading a property; a missing one reads as \<^verbatim>\<open>undefined\<close>, NaN in arithmetic.\<close>

definition getprop :: "store \<Rightarrow> nat \<Rightarrow> string \<Rightarrow> jsnum" where
  "getprop s a k = (case cells s a of
                      Some ob \<Rightarrow> (case map_of ob k of Some v \<Rightarrow> v | None \<Rightarrow> NaN)
                    | None \<Rightarrow> NaN)"

text \<open>Assignment keeps the place of an existing property and appends a new one.\<close>

fun assign :: "string \<Rightarrow> jsnum \<Rightarrow> object \<Rightarrow> object" where
  "assign k v [] = [(k, v)]"
| "assign k v (p # ps) = (if fst p = k then (k, v) # ps else p # assign k v ps)"

definition setprop :: "nat \<Rightarrow> string \<Rightarrow> jsnum \<Rightarrow> store \<Rightarrow> store" where
  "setprop a k v s = (case cells s a of
                        Some ob \<Rightarrow> s\<lparr> cells := (cells s)(a \<mapsto> assign k v ob) \<rparr>
                      | None \<Rightarrow> s)"

definition properties :: "store \<Rightarrow> nat \<Rightarrow> object" where
  "properties s a = (case cells s a of Some ob \<Rightarrow> ob | None \<Rightarrow> [])"

definition tier_high_st :: "nat \<Rightarrow> store \<Rightarrow> store" where
  "tier_high_st b s =
     setprop b ''accountAge'' (lit (20 / 100))
       (setprop b ''utilization'' (lit (40 / 100))
         (setprop b ''paymentHistory'' (lit (25 / 100)) s))"

definition tier_low_st :: "nat \<Rightarrow> store \<Rightarrow> store" where
  "tier_low_st b s =
     setprop b ''newCredit'' (lit (15 / 100))
       (setprop b ''utilization'' (lit (25 / 100))
         (setprop b ''paymentHistory'' (lit (45 / 100)) s))"

definition dti_rule_st :: "nat \<Rightarrow> store \<Rightarrow> store" where
  "dti_rule_st b s =
     (let s1 = setprop b ''utilization''
                 (Math_min (lit (45 / 100)) (js_add (getprop s b ''utilization'') (lit (5 / 100)))) s
      in setprop b ''paymentHistory''
           (Math_max (lit (25 / 100)) (js_sub (getprop s1 b ''paymentHistory'') (lit (5 / 100)))) s1)"

definition overall_rule_st :: "nat \<Rightarrow> store \<Rightarrow> store" where
  "overall_rule_st b s =
     setprop b ''utilization''
       (Math_max (lit (20 / 100)) (js_sub (getprop s b ''utilization'') (lit (5 / 100)))) s"

definition anchors_rule_st :: "nat \<Rightarrow> store \<Rightarrow> store" where
  "anchors_rule_st b s =
     (let s1 = setprop b ''paymentHistory''
                 (Math_max (lit (30 / 100)) (js_sub (getprop s b ''paymentHistory'') (lit (5 / 100)))) s
      in setprop b ''creditMix''
           (Math_min (lit (20 / 100)) (js_add (getprop s1 b ''creditMix'') (lit (5 / 100)))) s1)"

definition age_young_st :: "nat \<Rightarrow> store \<Rightarrow> store" where
  "age_young_st b s =
     (let s1 = setprop b ''accountAge''
                 (Math_max (lit (5 / 100)) (js_sub (getprop s b ''accountAge'') (lit (5 / 100)))) s
      in setprop b ''newCredit''
           (Math_min (lit (20 / 100)) (js_add (getprop s1 b ''newCredit'') (lit (5 / 100)))) s1)"

definition age_old_st :: "nat \<Rightarrow> store \<Rightarrow> store" where
  "age_old_st b s =
     setprop b ''accountAge''
       (Math_min (lit (25 / 100)) (js_add (getprop s b ''accountAge'') (lit (5 / 100)))) s"

text \<open>
  The sum over \<^verbatim>\<open>Object.values\<close>, then the loop over the keys, each step reading and
  overwriting one property.
\<close>

definition normalize_st :: "nat \<Rightarrow> store \<Rightarrow> store" where
  "normalize_st b s =
     (let sum = foldl js_add (Fin 0) (map snd (properties s b))
      in fold (\<lambda>key t. setprop b key (parseFloat_toFixed 4 (js_div (getprop t b key) sum)) t)
           (map fst (properties s b)) s)"

definition calculateWeights_st ::
  "jsnum \<Rightarrow> jsnum \<Rightarrow> jsnum \<Rightarrow> jsnum \<Rightarrow> jsnum \<Rightarrow> jsnum \<Rightarrow> store \<Rightarrow> nat \<times> store" where
  "calculateWeights_st ficoScore totalDebt monthlyIncome positiveAccounts oldestAccountAge
       totalCreditLimit s =
     (let (b, s0) = alloc [(''paymentHistory'', lit (35 / 100)), (''utilization'', lit (30 / 100)),
                           (''accountAge'', lit (15 / 100)), (''creditMix'', lit (10 / 100)),
                           (''newCredit'', lit (10 / 100))] s;
          s1 = (if js_ge ficoScore (Fin 740) then tier_high_st b s0
                else if js_le ficoScore (Fin 580) then tier_low_st b s0
                else s0);
          dti = debt_to_income totalDebt monthlyIncome;
          s2 = (if js_gt dti (lit (45 / 100)) then dti_rule_st b s1 else s1);
          s3 = (if js_gt totalCreditLimit (Fin 0)
                then let trueOverallUtilization =
                           js_mul (js_div totalDebt totalCreditLimit) (Fin 100)
                     in if js_lt trueOverallUtilization (Fin 30) then overall_rule_st b s2 else s2
                else s2);
          s4 = (if js_gt positiveAccounts (Fin 0) then anchors_rule_st b s3 else s3);
          s5 = (if js_lt oldestAccountAge (Fin 4) then age_young_st b s4
                else if js_gt oldestAccountAge (Fin 10) then age_old_st b s4
                else s4)
      in (b, normalize_st b s5))"

text \<open>The weights that the engine reads from the object.\<close>

definition read_weights :: "store \<Rightarrow> nat \<Rightarrow> weight_set" where
  "read_weights s b =
     \<lparr> paymentHistory = getprop s b ''paymentHistory'',
       utilization = getprop s b ''utilization'',
       accountAge = getprop s b ''accountAge'',
       creditMix = getprop s b ''creditMix'',
       newCredit = getprop s b ''newCredit'' \<rparr>"

text \<open>The object of a weight set.\<close>

definition weights_object :: "weight_set \<Rightarrow> object" where
  "weights_object w =
     [(''paymentHistory'', paymentHistory w), (''utilization'', utilization w),
      (''accountAge'', accountAge w), (''creditMix'', creditMix w),
      (''newCredit'', newCredit w)]"

subsection \<open>Properties of weight sets\<close>

text \<open>
  Every rule either applies or not, so the weights before normalization are among the
  72 combinations of the rules over the three tiers.
\<close>

definition weight_cases :: "weight_set \<Rightarrow> weight_set list" where
  "weight_cases t =
     [f5 (f4 (f3 t)).
        f3 \<leftarrow> [overall_rule, id], f4 \<leftarrow> [anchors_rule, id],
        f5 \<leftarrow> [age_young, age_old, id]]"

text \<open>The exact sum of five finite weights, and the sum being within 0.001 of 1.\<close>

definition exact_total :: "weight_set \<Rightarrow> rat option" where
  "exact_total w =
     (case (paymentHistory w, utilization w, accountAge w, creditMix w, newCredit w) of
        (Fin a, Fin b, Fin c, Fin d, Fin e) \<Rightarrow> Some (a + b + c + d + e)
      | _ \<Rightarrow> None)"

definition sum_near_one :: "weight_set \<Rightarrow> bool" where
  "sum_near_one w =
     (case exact_total w of Some t \<Rightarrow> \<bar>t - 1\<bar> \<le> 1 / 1000 | None \<Rightarrow> False)"

definition between :: "rat \<Rightarrow> rat \<Rightarrow> jsnum \<Rightarrow> bool" where
  "between lo hi x = (case x of Fin q \<Rightarrow> lo \<le> q \<and> q \<le> hi | _ \<Rightarrow> False)"

text \<open>The clamp bounds of the rules, as the comparisons of the source see them.\<close>

definition within_clamps :: "weight_set \<Rightarrow> bool" where
  "within_clamps w =
     (js_le (lit (25 / 100)) (paymentHistory w) \<and> js_le (paymentHistory w) (lit (45 / 100))
      \<and> js_le (lit (20 / 100)) (utilization w) \<and> js_le (utilization w) (lit (45 / 100))
      \<and> js_le (lit (5 / 100)) (accountAge w) \<and> js_le (accountAge w) (lit (25 / 100))
      \<and> js_le (lit (10 / 100)) (creditMix w) \<and> js_le (creditMix w) (lit (20 / 100))
      \<and> js_le (lit (10 / 100)) (newCredit w) \<and> js_le (newCredit w) (lit (20 / 100)))"

text \<open>Every weight of a normalized set is a finite number from 0.08 to 0.43.\<close>

definition weight_range :: "weight_set \<Rightarrow> bool" where
  "weight_range w =
     list_all (between (8 / 100) (43 / 100))
       [paymentHistory w, utilization w, accountAge w, creditMix w, newCredit w]"

definition weights_ok :: "weight_set \<Rightarrow> bool" where
  "weights_ok w =
     (within_clamps w
      \<and> (let n = normalize w
         in sum_near_one n \<and> between (18 / 100) (41 / 100) (utilization n)
            \<and> weight_range n))"

section \<open>The simulation\<close>

text \<open>
  The record \<^verbatim>\<open>data\<close> of the form state.  \<^verbatim>\<open>runSimulation\<close> copies it into
  \<^verbatim>\<open>numericData\<close>, where the ten numeric fields have become numbers; the scenario and
  the three tool flags are copied as they are.  The contact fields of the form are not
  read by the engine and are left out.
\<close>

record 'n data =
  ficoScore :: 'n
  totalDebt :: 'n
  monthlyIncome :: 'n
  utilization :: 'n
  accountsEnrolling :: 'n
  positiveAccounts :: 'n
  oldestAccountAge :: 'n
  programTimeline :: 'n
  totalCreditLimit :: 'n
  monthsInProgram :: 'n
  scenarioType :: jsval
  securedCard :: jsval
  creditBuilder :: jsval
  authorizedUser :: jsval

record simulation =
  initialScore :: jsnum
  lowPointScore :: jsnum
  projectedScore :: jsnum
  scoreGain :: jsnum
  recoveryTime :: jstext
  postDTI :: jstext
  savings :: jsnum
  impactPenalty :: jsnum
  recoveryMonths :: jsnum
  weights :: weight_set
  milestoneDipScore :: jsnum
  milestoneStabilizationScore :: jsnum
  milestoneRecoveryScore :: jsnum

text \<open>The potential temporary score drop (worst-case impact), before rounding.\<close>

definition worst_case_drop :: "jsnum data \<Rightarrow> weight_set \<Rightarrow> jsnum" where
  "worst_case_drop d w =
     (let drop0 = Fin 0;
          utilizationFactor = Math_max (Fin 0) (js_div (js_sub (Fin 100) (utilization d)) (Fin 10));
          drop1 = js_add drop0
                    (js_mul (js_mul utilizationFactor (Fin 5))
                            (js_mul (weight_set.utilization w) (Fin 2)));
          severityFactor = Math_max (Fin 0) (js_div (js_sub (ficoScore d) (Fin 500)) (Fin 20));
          drop2 = js_add drop1 (js_mul severityFactor (Fin 5));
          drop3 = js_sub drop2 (js_mul (positiveAccounts d) (Fin 10))
      in if js_gt (oldestAccountAge d) (Fin 10) then js_sub drop3 (Fin 15) else drop3)"

definition calculateWorstCaseImpact :: "jsnum data \<Rightarrow> weight_set \<Rightarrow> jsnum" where
  "calculateWorstCaseImpact d w =
     Math_min (Fin 150) (Math_max (Fin 20) (Math_round (worst_case_drop d w)))"

text \<open>Ensure all data is numeric for calculation.\<close>

definition numericData :: "jsval data \<Rightarrow> jsnum data" where
  "numericData d =
     \<lparr> ficoScore = or_else (Number (ficoScore d)) (Fin 0),
       totalDebt = or_else (Number (totalDebt d)) (Fin 0),
       monthlyIncome = or_else (Number (monthlyIncome d)) (Fin 0),
       utilization = or_else (Number (utilization d)) (Fin 0),
       accountsEnrolling = or_else (Number (accountsEnrolling d)) (Fin 0),
       positiveAccounts = or_else (Number (positiveAccounts d)) (Fin 0),
       oldestAccountAge = or_else (Number (oldestAccountAge d)) (Fin 0),
       programTimeline = or_else (Number (programTimeline d)) (Fin 36),
       totalCreditLimit = or_else (Number (totalCreditLimit d)) (Fin 0),
       monthsInProgram = or_else (Number (monthsInProgram d)) (Fin 0),
       scenarioType = scenarioType d,
       securedCard = securedCard d,
       creditBuilder = creditBuilder d,
       authorizedUser = authorizedUser d \<rparr>"

text \<open>
  The scenario branch: the impact penalty, the low point and the recovery months.
\<close>

definition scenario :: "jsnum data \<Rightarrow> weight_set \<Rightarrow> jsnum \<times> jsnum \<times> jsnum" where
  "scenario nd w =
     (if scenarioType nd = Str ''pre-enrollment''
      then let impact = calculateWorstCaseImpact nd w
           in (impact, Math_max (Fin 300) (js_sub (ficoScore nd) impact), programTimeline nd)
      else (Fin 0, ficoScore nd,
            Math_max (Fin 12) (js_sub (programTimeline nd) (monthsInProgram nd))))"

text \<open>The potential gain: utilization, payment history, account age and tools.\<close>

definition toolGain :: "jsnum data \<Rightarrow> jsnum" where
  "toolGain nd =
     (let t0 = Fin 0;
          t1 = (if truthy (securedCard nd) then js_add t0 (Fin 30) else t0);
          t2 = (if truthy (creditBuilder nd) then js_add t1 (Fin 25) else t1)
      in if truthy (authorizedUser nd) then js_add t2 (Fin 10) else t2)"

definition totalPotentialGain :: "jsnum data \<Rightarrow> weight_set \<Rightarrow> jsnum \<Rightarrow> jsnum" where
  "totalPotentialGain nd w months =
     (let g0 = Fin 0;
          g1 = js_add g0 (js_mul (weight_set.utilization w) (Fin 250));
          historyGain = js_mul (js_mul (paymentHistory w) (Fin 150)) (js_div months (Fin 36));
          g2 = js_add g1 historyGain;
          g3 = js_add g2 (js_mul (js_mul (accountAge w) (Fin 50)) (js_div months (Fin 36)))
      in js_add g3 (toolGain nd))"

text \<open>The financials: the debt-to-income percentage after the program.\<close>

definition post_dti :: "jsnum data \<Rightarrow> jsnum" where
  "post_dti nd =
     (let debtSavings = js_mul (totalDebt nd) (lit (55 / 100));
          postProgramDebt = js_sub (totalDebt nd) debtSavings;
          annualPostDebtPayment = js_mul postProgramDebt (lit (5 / 100));
          monthlyPostDebtPayment = js_div annualPostDebtPayment (Fin 12)
      in if js_gt (monthlyIncome nd) (Fin 0)
         then js_mul (js_div monthlyPostDebtPayment (monthlyIncome nd)) (Fin 100)
         else Fin 0)"

text \<open>The weights of a numeric profile.\<close>

definition profile_weights :: "jsnum data \<Rightarrow> weight_set" where
  "profile_weights nd =
     calculateWeights (ficoScore nd) (totalDebt nd) (monthlyIncome nd)
       (positiveAccounts nd) (oldestAccountAge nd) (totalCreditLimit nd)"

text \<open>
  The main simulation engine: the numeric data, the weights, and the assembly of the
  result from both.
\<close>

definition assemble :: "jsnum data \<Rightarrow> weight_set \<Rightarrow> simulation" where
  "assemble nd w =
     (let initial = ficoScore nd;
          (impact, lowPoint, months) = scenario nd w;
          projected = Math_min (Fin 850)
                        (Math_round (js_add lowPoint (totalPotentialGain nd w months)));
          debtSavings = js_mul (totalDebt nd) (lit (55 / 100));
          totalGain = js_sub projected lowPoint;
          stabilizationScore =
            Math_min initial
              (js_add lowPoint (Math_round (js_mul totalGain (lit (15 / 100)))));
          recoveryScore = js_add lowPoint (Math_round (js_mul totalGain (lit (65 / 100))))
      in \<lparr> initialScore = initial,
           lowPointScore = lowPoint,
           projectedScore = projected,
           scoreGain = js_sub projected initial,
           recoveryTime = ToString months '' months'',
           postDTI = toFixed 1 (Math_min (Fin 50) (post_dti nd)),
           savings = debtSavings,
           impactPenalty = impact,
           recoveryMonths = months,
           weights = w,
           milestoneDipScore = lowPoint,
           milestoneStabilizationScore = stabilizationScore,
           milestoneRecoveryScore = recoveryScore \<rparr>)"

definition runSimulation :: "jsval data \<Rightarrow> simulation" where
  "runSimulation d = (let nd = numericData d in assemble nd (profile_weights nd))"

text \<open>
  The same engine over the store: \<^verbatim>\<open>calculateWeights\<close> leaves its object in the store,
  the engine reads the weights from it and returns the result, the address of the
  weights object that the result refers to, and the store.
\<close>

definition runSimulation_st :: "jsval data \<Rightarrow> store \<Rightarrow> simulation \<times> nat \<times> store" where
  "runSimulation_st d s =
     (let nd = numericData d;
          (b, t) = calculateWeights_st (ficoScore nd) (totalDebt nd) (monthlyIncome nd)
                     (positiveAccounts nd) (oldestAccountAge nd) (totalCreditLimit nd) s
      in (assemble nd (read_weights t b), b, t))"

text \<open>The store \<open>t\<close> is the store \<open>s\<close> with the object of \<open>w\<close> at address \<open>b\<close>.\<close>

definition holds :: "store \<Rightarrow> nat \<Rightarrow> weight_set \<Rightarrow> store \<Rightarrow> bool" where
  "holds s b w t = (t = s\<lparr> cells := (cells s)(b \<mapsto> weights_object w) \<rparr>)"

section \<open>Profiles\<close>

text \<open>
  The profile of the worked scenario A.  The number of enrolled accounts is not given by
  the scenario and is left open; the months in the program are the form's default.
\<close>

definition profile_A :: "jsval \<Rightarrow> jsval data" where
  "profile_A ae =
     \<lparr> ficoScore = Num (Fin 650), totalDebt = Num (Fin 20000),
       monthlyIncome = Num (Fin 4000), utilization = Num (Fin 70),
       accountsEnrolling = ae, positiveAccounts = Num (Fin 1),
       oldestAccountAge = Num (Fin 8), programTimeline = Num (Fin 36),
       totalCreditLimit = Num (Fin 30000), monthsInProgram = Num (Fin 0),
       scenarioType = Str ''pre-enrollment'', securedCard = Bool True,
       creditBuilder = Bool True, authorizedUser = Bool False \<rparr>"

text \<open>
  The profile of the worked scenario B: the same, twelve months into the program.
\<close>

definition profile_B :: "jsval \<Rightarrow> jsval data" where
  "profile_B ae =
     (profile_A ae)\<lparr> monthsInProgram := Num (Fin 12),
                      scenarioType := Str ''progress-tracker'' \<rparr>"

text \<open>
  A profile with the best score, a short program, no positive account and no tool.
\<close>

definition profile_top :: "jsval data" where
  "profile_top =
     \<lparr> ficoScore = Num (Fin 850), totalDebt = Num (Fin 2000),
       monthlyIncome = Num (Fin 10000), utilization = Num (Fin 30),
       accountsEnrolling = Num (Fin 1), positiveAccounts = Num (Fin 0),
       oldestAccountAge = Num (Fin 5), programTimeline = Num (Fin 12),
       totalCreditLimit = Num (Fin 0), monthsInProgram = Num (Fin 0),
       scenarioType = Str ''pre-enrollment'', securedCard = Bool False,
       creditBuilder = Bool False, authorizedUser = Bool False \<rparr>"

text \<open>
  The contract that the form enforces before it calls the engine (\<^verbatim>\<open>handleNext\<close>), on a
  record whose fields hold numbers of the kinds the form offers: a whole score from 300
  to 850, a debt above 1000, a positive income, one of the utilization buckets, whole
  counts, a timeline the slider offers, one of the two scenarios, and, in the progress
  tracker, at least one month in the program.
\<close>

definition is_int :: "rat \<Rightarrow> bool" where
  "is_int q = (of_int \<lfloor>q\<rfloor> = q)"

definition whole_from :: "rat \<Rightarrow> jsval \<Rightarrow> bool" where
  "whole_from lo v = (case v of Num (Fin q) \<Rightarrow> is_int q \<and> lo \<le> q | _ \<Rightarrow> False)"

definition amount_above :: "rat \<Rightarrow> jsval \<Rightarrow> bool" where
  "amount_above lo v = (case v of Num (Fin q) \<Rightarrow> lo < q | _ \<Rightarrow> False)"

definition is_flag :: "jsval \<Rightarrow> bool" where
  "is_flag v = (case v of Bool b \<Rightarrow> True | _ \<Rightarrow> False)"

definition contract :: "jsval data \<Rightarrow> bool" where
  "contract d =
     (whole_from 300 (ficoScore d) \<and> \<not> whole_from 851 (ficoScore d)
      \<and> amount_above 1000 (totalDebt d)
      \<and> amount_above 0 (monthlyIncome d)
      \<and> utilization d \<in> set (map (\<lambda>u. Num (Fin u)) [30, 50, 70, 90, 100])
      \<and> whole_from 1 (accountsEnrolling d)
      \<and> whole_from 0 (positiveAccounts d)
      \<and> whole_from 0 (oldestAccountAge d)
      \<and> (totalCreditLimit d = Num (Fin 0) \<or> amount_above 0 (totalCreditLimit d))
      \<and> programTimeline d \<in> set (map (\<lambda>t. Num (Fin t)) [12, 24, 36, 48, 60])
      \<and> scenarioType d \<in> set [Str ''pre-enrollment'', Str ''progress-tracker'']
      \<and> (if scenarioType d = Str ''progress-tracker''
          then whole_from 1 (monthsInProgram d) else whole_from 0 (monthsInProgram d))
      \<and> is_flag (securedCard d) \<and> is_flag (creditBuilder d) \<and> is_flag (authorizedUser d))"

subsection \<open>Finite profiles and numeric results\<close>

text \<open>
  The largest finite binary64 value, and the numbers of at most that magnitude.  A
  field is convertible when \<^verbatim>\<open>Number\<close> makes it NaN (a missing or non-numeric field, which
  \<^verbatim>\<open>numericData\<close> replaces) or a finite number; a profile is finite when all its numeric
  fields are.
\<close>

definition max_double :: rat where
  "max_double = (2 ^ 53 - 1) * 2 ^ 971"

definition finite_double :: "jsnum \<Rightarrow> bool" where
  "finite_double x = between (- max_double) max_double x"

definition convertible :: "jsval \<Rightarrow> bool" where
  "convertible v = (Number v = NaN \<or> finite_double (Number v))"

definition finite_profile :: "jsval data \<Rightarrow> bool" where
  "finite_profile d =
     list_all convertible
       [ficoScore d, totalDebt d, monthlyIncome d, utilization d, accountsEnrolling d,
        positiveAccounts d, oldestAccountAge d, programTimeline d, totalCreditLimit d,
        monthsInProgram d]"

text \<open>A result is numeric when none of its numbers is NaN.\<close>

definition numeric_result :: "simulation \<Rightarrow> bool" where
  "numeric_result r =
     list_all (\<lambda>x. x \<noteq> NaN)
       [initialScore r, lowPointScore r, projectedScore r, scoreGain r, savings r,
        impactPenalty r, recoveryMonths r, milestoneDipScore r,
        milestoneStabilizationScore r, milestoneRecoveryScore r,
        paymentHistory (weights r), weight_set.utilization (weights r),
        accountAge (weights r), creditMix (weights r), newCredit (weights r)]"

text \<open>A whole number within a range.\<close>

definition whole_between :: "int \<Rightarrow> int \<Rightarrow> jsnum \<Rightarrow> bool" where
  "whole_between lo hi x = (case x of Fin q \<Rightarrow> is_int q \<and> of_int lo \<le> q \<and> q \<le> of_int hi
                                   | _ \<Rightarrow> False)"

text \<open>The number of binary digits of a numeral.\<close>

primrec blen :: "num \<Rightarrow> int" where
  "blen num.One = 1"
| "blen (num.Bit0 n) = blen n + 1"
| "blen (num.Bit1 n) = blen n + 1"

section \<open>Evaluation\<close>

text \<open>
  The simplifier evaluates the model on numerals: the bit length of a numeral by
  recursion on its binary digits, the floor of a quotient of numerals by integer
  division.
\<close>

lemma bitlen_numeral: "bitlen (numeral n) = blen n"
proof (induction n)
  case One
  show ?case by (simp add: bitlen_alt_def)
next
  case (Bit0 n)
  have "bitlen (numeral (num.Bit0 n)) = bitlen (numeral n) + 1"
    by (subst compute_bitlen) simp
  then show ?case using Bit0 by simp
next
  case (Bit1 n)
  have "bitlen (numeral (num.Bit1 n)) = bitlen (numeral n) + 1"
    by (subst compute_bitlen) simp
  then show ?case using Bit1 by simp
qed

lemma bitlen_one: "bitlen 1 = 1"
  by (simp add: bitlen_alt_def)

lemma pow2_numeral:
  "pow2 (numeral n) = 2 ^ numeral n"
  "pow2 (- numeral n) = 1 / 2 ^ numeral n"
  "pow2 0 = 1" "pow2 1 = 2" "pow2 (- 1) = 1 / 2"
  by (simp_all add: pow2_def)

lemma floor_quotient:
  "\<lfloor>numeral a / numeral b :: rat\<rfloor> = numeral a div numeral b"
  "\<lfloor>- (numeral a / numeral b) :: rat\<rfloor> = - numeral a div numeral b"
  "\<lfloor>1 / numeral b :: rat\<rfloor> = 1 div numeral b"
  "\<lfloor>- (1 / numeral b) :: rat\<rfloor> = - 1 div numeral b"
  using floor_divide_of_int_eq [of "numeral a" "numeral b", where ?'a = rat]
    floor_divide_of_int_eq [of "- numeral a" "numeral b", where ?'a = rat]
    floor_divide_of_int_eq [of 1 "numeral b", where ?'a = rat]
    floor_divide_of_int_eq [of "- 1" "numeral b", where ?'a = rat]
  by simp_all

lemmas rnd_eval = rnd_def round_magnitude_def expo_def round_half_even_def bitlen_numeral bitlen_one
  pow2_numeral floor_quotient

lemmas num_eval = rnd_eval js_sub_def js_gt_def js_ge_def signed_inf_def toFixed_n_def
  pad_zeros_def
  digits.simps digit_char_def or_else_def

lemmas str_eval = StrWhiteSpaceChar_def trim_def digit_value_def is_digit_def
  digits_value_def pow10_def NonDecimalIntegerLiteral_def ExponentPart_def
  StrUnsignedDecimalLiteral_def StrDecimalLiteral_def StringToNumber_def

text \<open>The binary64 values of the decimal literals of the source.\<close>

lemma lit_values:
  "lit (7 / 20) = Fin (3152519739159347 / 9007199254740992)"
  "lit (3 / 10) = Fin (5404319552844595 / 18014398509481984)"
  "lit (3 / 20) = Fin (5404319552844595 / 36028797018963968)"
  "lit (1 / 10) = Fin (3602879701896397 / 36028797018963968)"
  "lit (1 / 4) = Fin (1 / 4)"
  "lit (2 / 5) = Fin (3602879701896397 / 9007199254740992)"
  "lit (1 / 5) = Fin (3602879701896397 / 18014398509481984)"
  "lit (9 / 20) = Fin (8106479329266893 / 18014398509481984)"
  "lit (1 / 20) = Fin (3602879701896397 / 72057594037927936)"
  "lit (11 / 20) = Fin (2476979795053773 / 4503599627370496)"
  "lit (13 / 20) = Fin (5854679515581645 / 9007199254740992)"
  by (simp_all add: lit_def rnd_eval cong: let_weak_cong)

lemmas rule_eval = baseWeights_def tier_high_def tier_low_def dti_rule_def
  overall_rule_def anchors_rule_def age_young_def age_old_def weight_sum_def normalize_def

lemmas weight_eval = rule_eval adjust_tier_def debt_to_income_def adjust_dti_def
  adjust_overall_def adjust_anchors_def adjust_age_def adjusted_weights_def
  calculateWeights_def

lemmas sim_eval = worst_case_drop_def calculateWorstCaseImpact_def numericData_def
  scenario_def toolGain_def totalPotentialGain_def post_dti_def profile_weights_def
  assemble_def runSimulation_def

lemmas engine_eval = lit_values num_eval weight_eval sim_eval

section \<open>The worked scenarios\<close>

text \<open>
  C1.  On the profile of scenario A, the composed simulation returns the weights
  0.30, 0.30, 0.15, 0.15 and 0.10, the impact penalty 37, the low point 613, the
  projected score 796, the score gain 146, the savings 11000, the debt-to-income
  percentage "0.9", and the milestones 640 (stabilization) and 732 (recovery).
\<close>

theorem scenario_A_result:
  "runSimulation (profile_A ae)
   = \<lparr> initialScore = Fin 650, lowPointScore = Fin 613, projectedScore = Fin 796,
       scoreGain = Fin 146, recoveryTime = Chars ''36 months'', postDTI = Chars ''0.9'',
       savings = Fin 11000, impactPenalty = Fin 37, recoveryMonths = Fin 36,
       weights = \<lparr> paymentHistory = lit (30 / 100), utilization = lit (30 / 100),
                   accountAge = lit (15 / 100), creditMix = lit (15 / 100),
                   newCredit = lit (10 / 100) \<rparr>,
       milestoneDipScore = Fin 613, milestoneStabilizationScore = Fin 640,
       milestoneRecoveryScore = Fin 732 \<rparr>"
  by (simp add: profile_A_def engine_eval cong: let_weak_cong)

text \<open>
  The result on the top-score profile, which meets the contract.
\<close>

lemma profile_top_result:
  "runSimulation profile_top
   = \<lparr> initialScore = Fin 850, lowPointScore = Fin 736, projectedScore = Fin 846,
       scoreGain = Fin (- 4), recoveryTime = Chars ''12 months'', postDTI = Chars ''0.0'',
       savings = Fin 1100, impactPenalty = Fin 114, recoveryMonths = Fin 12,
       weights = \<lparr> paymentHistory = lit (2381 / 10000), utilization = lit (3810 / 10000),
                   accountAge = lit (1905 / 10000), creditMix = lit (952 / 10000),
                   newCredit = lit (952 / 10000) \<rparr>,
       milestoneDipScore = Fin 736, milestoneStabilizationScore = Fin 753,
       milestoneRecoveryScore = Fin 808 \<rparr>"
  by (simp add: profile_top_def engine_eval lit_def cong: let_weak_cong)

lemma profile_top_contract: "contract profile_top"
  by (simp add: contract_def profile_top_def whole_from_def amount_above_def is_flag_def
      is_int_def)

text \<open>
  C10.  Some profile within the contract, in the pre-enrollment scenario, has a
  projected score below its initial score, that is a negative score gain.
\<close>

theorem negative_gain_within_contract:
  "\<exists>d. contract d \<and> scenarioType d = Str ''pre-enrollment''
       \<and> js_lt (projectedScore (runSimulation d)) (initialScore (runSimulation d))
       \<and> js_lt (scoreGain (runSimulation d)) (Fin 0)"
proof -
  have "scenarioType profile_top = Str ''pre-enrollment''"
    by (simp add: profile_top_def)
  moreover have "js_lt (projectedScore (runSimulation profile_top))
      (initialScore (runSimulation profile_top))"
    by (simp add: profile_top_result)
  moreover have "js_lt (scoreGain (runSimulation profile_top)) (Fin 0)"
    by (simp add: profile_top_result)
  ultimately show ?thesis
    using profile_top_contract by blast
qed

section \<open>The weights\<close>

lemma in_weight_cases:
  assumes "f3 = overall_rule \<or> f3 = id" "f4 = anchors_rule \<or> f4 = id"
    "f5 = age_young \<or> f5 = age_old \<or> f5 = id"
  shows "f5 (f4 (f3 t)) \<in> set (weight_cases t)"
  using assms unfolding weight_cases_def by fastforce

lemma tier_choice:
  "adjust_dti d i (adjust_tier f baseWeights)
     \<in> {dti_rule (tier_high baseWeights), tier_high baseWeights,
         dti_rule (tier_low baseWeights), tier_low baseWeights,
         dti_rule baseWeights, baseWeights}"
  by (simp add: adjust_tier_def adjust_dti_def Let_def)

lemma overall_choice: "\<exists>g. (g = overall_rule \<or> g = id) \<and> adjust_overall d l w = g w"
  unfolding adjust_overall_def Let_def by (metis id_apply)

lemma anchors_choice: "\<exists>g. (g = anchors_rule \<or> g = id) \<and> adjust_anchors p w = g w"
  unfolding adjust_anchors_def by (metis id_apply)

lemma age_choice:
  "\<exists>g. (g = age_young \<or> g = age_old \<or> g = id) \<and> adjust_age a w = g w"
  unfolding adjust_age_def by (metis id_apply)

lemma adjusted_in_cases:
  "adjusted_weights f d i p a l
     \<in> set (weight_cases (adjust_dti d i (adjust_tier f baseWeights)))"
proof -
  obtain f3 where f3: "f3 = overall_rule \<or> f3 = id"
    "adjust_overall d l (adjust_dti d i (adjust_tier f baseWeights))
       = f3 (adjust_dti d i (adjust_tier f baseWeights))"
    using overall_choice by blast
  obtain f4 where f4: "f4 = anchors_rule \<or> f4 = id"
    "adjust_anchors p (f3 (adjust_dti d i (adjust_tier f baseWeights)))
       = f4 (f3 (adjust_dti d i (adjust_tier f baseWeights)))"
    using anchors_choice by blast
  obtain f5 where f5: "f5 = age_young \<or> f5 = age_old \<or> f5 = id"
    "adjust_age a (f4 (f3 (adjust_dti d i (adjust_tier f baseWeights))))
       = f5 (f4 (f3 (adjust_dti d i (adjust_tier f baseWeights))))"
    using age_choice by blast
  have "adjusted_weights f d i p a l = f5 (f4 (f3 (adjust_dti d i (adjust_tier f baseWeights))))"
    by (simp add: adjusted_weights_def f3(2) f4(2) f5(2))
  then show ?thesis
    using in_weight_cases [OF f3(1) f4(1) f5(1)] by simp
qed

lemma adjusted_cases:
  "adjusted_weights f d i p a l
     \<in> set (weight_cases (dti_rule (tier_high baseWeights)))
       \<union> set (weight_cases (tier_high baseWeights))
       \<union> set (weight_cases (dti_rule (tier_low baseWeights)))
       \<union> set (weight_cases (tier_low baseWeights))
       \<union> set (weight_cases (dti_rule baseWeights))
       \<union> set (weight_cases baseWeights)"
  using adjusted_in_cases [of f d i p a l] tier_choice [of d i f] by auto

lemmas cases_eval = weight_cases_def weights_ok_def within_clamps_def sum_near_one_def
  exact_total_def between_def weight_range_def lit_values num_eval rule_eval

lemma cases_high_dti: "list_all weights_ok (weight_cases (dti_rule (tier_high baseWeights)))"
  by (simp add: cases_eval cong: let_weak_cong)

lemma cases_high: "list_all weights_ok (weight_cases (tier_high baseWeights))"
  by (simp add: cases_eval cong: let_weak_cong)

lemma cases_low_dti: "list_all weights_ok (weight_cases (dti_rule (tier_low baseWeights)))"
  by (simp add: cases_eval cong: let_weak_cong)

lemma cases_low: "list_all weights_ok (weight_cases (tier_low baseWeights))"
  by (simp add: cases_eval cong: let_weak_cong)

lemma cases_mid_dti: "list_all weights_ok (weight_cases (dti_rule baseWeights))"
  by (simp add: cases_eval cong: let_weak_cong)

lemma cases_mid: "list_all weights_ok (weight_cases baseWeights)"
  by (simp add: cases_eval cong: let_weak_cong)

lemma adjusted_ok: "weights_ok (adjusted_weights f d i p a l)"
  using adjusted_cases [of f d i p a l] cases_high_dti cases_high cases_low_dti cases_low
    cases_mid_dti cases_mid
  unfolding list_all_iff by blast

text \<open>
  C2 (as amended).  For every profile, the five weights that \<^verbatim>\<open>calculateWeights\<close> returns
  are finite and sum to 1 within 0.001; the returned utilization weight lies between
  0.18 and 0.41; and before normalization every weight lies within the clamp bounds of
  the rules, the utilization weight between 0.20 and 0.45.
\<close>

theorem weights_normalized:
  "sum_near_one (calculateWeights f d i p a l)
   \<and> between (18 / 100) (41 / 100) (weight_set.utilization (calculateWeights f d i p a l))
   \<and> within_clamps (adjusted_weights f d i p a l)"
  using adjusted_ok [of f d i p a l]
  by (simp add: weights_ok_def calculateWeights_def Let_def)

text \<open>
  C2 as stated fails: with a score of 580, low overall utilization and no other rule,
  the utilization weight is 0.20 before normalization and 0.1905 after it, below 0.20.
\<close>

theorem utilization_below_clamp:
  "js_lt (weight_set.utilization
            (calculateWeights (Fin 580) (Fin 2000) (Fin 5000) (Fin 0) (Fin 5) (Fin 10000)))
         (lit (20 / 100))"
  by (simp add: lit_values num_eval weight_eval cong: let_weak_cong)

lemma weights_in_range: "weight_range (calculateWeights f d i p a l)"
  using adjusted_ok [of f d i p a l]
  by (simp add: weights_ok_def calculateWeights_def Let_def)

section \<open>The scenario branch\<close>

lemma run_fields:
  "initialScore (runSimulation d) = ficoScore (numericData d)"
  "impactPenalty (runSimulation d)
     = fst (scenario (numericData d) (profile_weights (numericData d)))"
  "lowPointScore (runSimulation d)
     = fst (snd (scenario (numericData d) (profile_weights (numericData d))))"
  "recoveryMonths (runSimulation d)
     = snd (snd (scenario (numericData d) (profile_weights (numericData d))))"
  "weights (runSimulation d) = profile_weights (numericData d)"
  "milestoneDipScore (runSimulation d) = lowPointScore (runSimulation d)"
  by (simp_all add: runSimulation_def assemble_def Let_def split_beta)

lemma scenario_other:
  assumes "scenarioType nd \<noteq> Str ''pre-enrollment''"
  shows "scenario nd w
    = (Fin 0, ficoScore nd, Math_max (Fin 12) (js_sub (programTimeline nd) (monthsInProgram nd)))"
  using assms by (simp add: scenario_def)

lemma numericData_scenario: "scenarioType (numericData d) = scenarioType d"
  by (simp add: numericData_def)

lemma or_else_truthy: "truthy_num x \<Longrightarrow> or_else x y = x"
  by (simp add: or_else_def)

lemma or_else_zero: "x \<noteq> NaN \<Longrightarrow> or_else x (Fin 0) = x"
  by (cases x) (simp_all add: or_else_def)

lemma numericData_fields:
  "ficoScore (numericData d) = or_else (Number (ficoScore d)) (Fin 0)"
  "programTimeline (numericData d) = or_else (Number (programTimeline d)) (Fin 36)"
  "monthsInProgram (numericData d) = or_else (Number (monthsInProgram d)) (Fin 0)"
  by (simp_all add: numericData_def)

text \<open>
  C4 (as amended).  In the progress tracker the impact penalty is 0, the low point is the
  score, or 0 when the \<^verbatim>\<open>ficoScore\<close> of the input converts to zero or to NaN, and the
  recovery takes \<open>max (12, t - m)\<close> months, where \<open>t\<close> is the \<^verbatim>\<open>programTimeline\<close> of the
  input, or 36 when that converts to zero or to NaN, and \<open>m\<close> its \<^verbatim>\<open>monthsInProgram\<close>, or 0
  when that converts to NaN.  So the low point is the \<^verbatim>\<open>ficoScore\<close> of the input whenever
  that is a number other than zero, and the recovery takes
  \<open>max (12, programTimeline - monthsInProgram)\<close> months on the fields of the input
  whenever its \<^verbatim>\<open>programTimeline\<close> is a number other than zero and its
  \<^verbatim>\<open>monthsInProgram\<close> is a number.  On scenario B: 0, 650 and 24 months.
\<close>

theorem progress_tracker_branch:
  assumes "scenarioType d = Str ''progress-tracker''"
  shows "impactPenalty (runSimulation d) = Fin 0
    \<and> lowPointScore (runSimulation d) = or_else (Number (ficoScore d)) (Fin 0)
    \<and> recoveryMonths (runSimulation d)
        = Math_max (Fin 12)
            (js_sub (or_else (Number (programTimeline d)) (Fin 36))
                    (or_else (Number (monthsInProgram d)) (Fin 0)))
    \<and> (truthy_num (Number (ficoScore d))
        \<longrightarrow> lowPointScore (runSimulation d) = Number (ficoScore d))
    \<and> (truthy_num (Number (programTimeline d)) \<and> Number (monthsInProgram d) \<noteq> NaN
        \<longrightarrow> recoveryMonths (runSimulation d)
            = Math_max (Fin 12)
                (js_sub (Number (programTimeline d)) (Number (monthsInProgram d))))"
proof -
  have "scenarioType (numericData d) \<noteq> Str ''pre-enrollment''"
    using assms by (simp add: numericData_scenario)
  then have run: "impactPenalty (runSimulation d) = Fin 0"
    "lowPointScore (runSimulation d) = or_else (Number (ficoScore d)) (Fin 0)"
    "recoveryMonths (runSimulation d)
       = Math_max (Fin 12)
           (js_sub (or_else (Number (programTimeline d)) (Fin 36))
                   (or_else (Number (monthsInProgram d)) (Fin 0)))"
    by (simp_all add: run_fields scenario_other numericData_fields)
  show ?thesis
    by (simp add: run or_else_truthy or_else_zero)
qed

theorem scenario_B_result:
  "scenarioType (profile_B (Num (Fin 1))) = Str ''progress-tracker''
   \<and> truthy_num (Number (ficoScore (profile_B (Num (Fin 1)))))
   \<and> truthy_num (Number (programTimeline (profile_B (Num (Fin 1)))))
   \<and> Number (monthsInProgram (profile_B (Num (Fin 1)))) \<noteq> NaN
   \<and> impactPenalty (runSimulation (profile_B (Num (Fin 1)))) = Fin 0
   \<and> lowPointScore (runSimulation (profile_B (Num (Fin 1)))) = Fin 650
   \<and> recoveryMonths (runSimulation (profile_B (Num (Fin 1)))) = Fin 24"
proof -
  have sc: "scenarioType (profile_B (Num (Fin 1))) = Str ''progress-tracker''"
    by (simp add: profile_B_def)
  have fields: "Number (ficoScore (profile_B (Num (Fin 1)))) = Fin 650"
    "Number (programTimeline (profile_B (Num (Fin 1)))) = Fin 36"
    "Number (monthsInProgram (profile_B (Num (Fin 1)))) = Fin 12"
    by (simp_all add: profile_B_def profile_A_def)
  have months: "Math_max (Fin 12) (js_sub (Fin 36) (Fin 12)) = Fin 24"
    by (simp add: num_eval cong: let_weak_cong)
  show ?thesis
    using progress_tracker_branch [OF sc] sc months by (simp add: fields or_else_def)
qed

text \<open>
  C4 as stated fails: scenario B with a \<^verbatim>\<open>programTimeline\<close> of 0 recovers in 24 months, as
  the timeline is replaced by 36, where \<open>max (12, 0 - 12)\<close> is 12.
\<close>

theorem zero_timeline_recovery:
  "scenarioType ((profile_B (Num (Fin 1)))\<lparr> programTimeline := Num (Fin 0) \<rparr>)
     = Str ''progress-tracker''
   \<and> recoveryMonths (runSimulation ((profile_B (Num (Fin 1)))\<lparr> programTimeline := Num (Fin 0) \<rparr>))
     = Fin 24
   \<and> Math_max (Fin 12)
       (js_sub (Number (programTimeline ((profile_B (Num (Fin 1)))\<lparr> programTimeline := Num (Fin 0) \<rparr>)))
               (Number (monthsInProgram ((profile_B (Num (Fin 1)))\<lparr> programTimeline := Num (Fin 0) \<rparr>))))
     = Fin 12"
  by (simp add: run_fields scenario_other numericData_def profile_B_def profile_A_def
      or_else_def num_eval cong: let_weak_cong)

text \<open>
  C5 as stated fails: in the progress tracker the low point is the score itself, so a
  score of 200 gives a low point of 200, below 300.
\<close>

theorem low_point_below_floor:
  "js_lt (lowPointScore (runSimulation ((profile_B (Num (Fin 1)))\<lparr> ficoScore := Num (Fin 200) \<rparr>)))
         (Fin 300)"
  by (simp add: run_fields scenario_other numericData_def profile_B_def profile_A_def
      or_else_def)

text \<open>
  The result on scenario B with a score of 1000, above the range of scores.
\<close>

lemma over_range_result:
  "runSimulation ((profile_B (Num (Fin 1)))\<lparr> ficoScore := Num (Fin 1000) \<rparr>)
   = \<lparr> initialScore = Fin 1000, lowPointScore = Fin 1000, projectedScore = Fin 850,
       scoreGain = Fin (- 150), recoveryTime = Chars ''24 months'', postDTI = Chars ''0.9'',
       savings = Fin 11000, impactPenalty = Fin 0, recoveryMonths = Fin 24,
       weights = \<lparr> paymentHistory = lit (2609 / 10000), utilization = lit (3478 / 10000),
                   accountAge = lit (1739 / 10000), creditMix = lit (1304 / 10000),
                   newCredit = lit (870 / 10000) \<rparr>,
       milestoneDipScore = Fin 1000, milestoneStabilizationScore = Fin 978,
       milestoneRecoveryScore = Fin 903 \<rparr>"
  apply (simp add: profile_B_def profile_A_def engine_eval lit_def cong: let_weak_cong)
  apply (simp add: Let_def)
  done

text \<open>
  C6 as stated fails: with a score of 1000 in the progress tracker all weights and the
  recovery months are positive, yet the projected score, capped at 850, is below the
  low point of 1000.
\<close>

theorem projected_below_low_point:
  "weight_range (weights (runSimulation ((profile_B (Num (Fin 1)))\<lparr> ficoScore := Num (Fin 1000) \<rparr>)))
   \<and> js_ge (recoveryMonths
               (runSimulation ((profile_B (Num (Fin 1)))\<lparr> ficoScore := Num (Fin 1000) \<rparr>)))
        (Fin 0)
   \<and> js_lt (projectedScore
               (runSimulation ((profile_B (Num (Fin 1)))\<lparr> ficoScore := Num (Fin 1000) \<rparr>)))
        (lowPointScore
               (runSimulation ((profile_B (Num (Fin 1)))\<lparr> ficoScore := Num (Fin 1000) \<rparr>)))"
  by (simp add: over_range_result weight_range_def between_def lit_def rnd_eval js_ge_def
      cong: let_weak_cong)

section \<open>Rounding\<close>

text \<open>
  Powers of two, the binary exponent, and rounding: it is monotone, and it leaves the
  numbers with at most 53 significant bits unchanged.
\<close>

lemma pow2_powi: "pow2 k = 2 powi k"
proof (cases "0 \<le> k")
  case True
  then show ?thesis by (simp add: pow2_def power_int_nonneg_exp)
next
  case False
  then have "0 \<le> - k" by simp
  then have "(2::rat) powi (- k) = 2 ^ nat (- k)" by (rule power_int_nonneg_exp)
  moreover have "(2::rat) powi k = 1 / (2 powi (- k))"
    using power_int_minus_divide [of "2::rat" "- k"] by simp
  ultimately show ?thesis using False by (simp add: pow2_def)
qed

lemma pow2_pos: "0 < pow2 k"
  by (simp add: pow2_powi)

lemma pow2_add: "pow2 (a + b) = pow2 a * pow2 b"
  by (simp add: pow2_powi power_int_add)

lemma pow2_diff: "pow2 (a - b) = pow2 a / pow2 b"
  by (simp add: pow2_powi power_int_diff)

lemma pow2_mono: "a \<le> b \<Longrightarrow> pow2 a \<le> pow2 b"
  by (simp add: pow2_powi power_int_increasing)

lemma pow2_strict_mono: "a < b \<Longrightarrow> pow2 a < pow2 b"
  by (simp add: pow2_powi power_int_strict_increasing)

lemma pow2_nat: "0 \<le> k \<Longrightarrow> pow2 k = 2 ^ nat k"
  by (simp add: pow2_def)

lemma pow2_Suc: "pow2 (k + 1) = 2 * pow2 k"
  using pow2_add [of k 1] by (simp add: pow2_numeral)

lemma int_less_pow2:
  fixes n :: int
  assumes "n < 2 ^ k"
  shows "(of_int n :: rat) + 1 \<le> 2 ^ k"
proof -
  have "n + 1 \<le> 2 ^ k" using assms by simp
  then have "(of_int (n + 1) :: rat) \<le> of_int (2 ^ k)" by (simp only: of_int_le_iff)
  then show ?thesis by simp
qed

lemma expo_ge_one:
  assumes "1 \<le> q"
  shows "pow2 (bitlen \<lfloor>q\<rfloor> - 1) \<le> q \<and> q < pow2 (bitlen \<lfloor>q\<rfloor>) \<and> 0 \<le> bitlen \<lfloor>q\<rfloor> - 1"
proof -
  let ?n = "\<lfloor>q\<rfloor>"
  have n: "0 < ?n" using assms by simp
  from bitlen_bounds [OF n]
  have lo: "2 ^ nat (bitlen ?n - 1) \<le> ?n" and hi: "?n < 2 ^ nat (bitlen ?n)" by simp_all
  have b1: "1 \<le> bitlen ?n" using n by (simp add: bitlen_alt_def)
  have "(of_int (2 ^ nat (bitlen ?n - 1)) :: rat) \<le> of_int ?n"
    using lo by (simp only: of_int_le_iff)
  then have "(2 :: rat) ^ nat (bitlen ?n - 1) \<le> of_int ?n" by simp
  also have "\<dots> \<le> q" by simp
  finally have A: "pow2 (bitlen ?n - 1) \<le> q" using b1 by (simp add: pow2_nat)
  have "q < of_int ?n + 1" by linarith
  also have "\<dots> \<le> 2 ^ nat (bitlen ?n)" using hi by (rule int_less_pow2)
  finally have B: "q < pow2 (bitlen ?n)" using b1 by (simp add: pow2_nat)
  show ?thesis using A B b1 by simp
qed

lemma expo_bounds:
  assumes "0 < q"
  shows "pow2 (expo q) \<le> q \<and> q < pow2 (expo q + 1)"
proof (cases "1 \<le> q")
  case True
  then show ?thesis using expo_ge_one [OF True] by (simp add: expo_def)
next
  case False
  let ?r = "1 / q"
  let ?j = "bitlen \<lfloor>?r\<rfloor> - 1"
  have r1: "1 \<le> ?r" using False assms by (simp add: field_simps)
  from expo_ge_one [OF r1]
  have lo: "pow2 ?j \<le> ?r" and hi: "?r < pow2 (?j + 1)" and j0: "0 \<le> ?j" by simp_all
  have qr: "q = 1 / ?r" by simp
  show ?thesis
  proof (cases "?r = pow2 ?j")
    case True
    then have e: "expo q = - ?j" using False by (simp add: expo_def Let_def)
    have "q = 1 / pow2 ?j" using True qr by simp
    also have "\<dots> = pow2 (- ?j)" using pow2_diff [of 0 ?j] by (simp add: pow2_def)
    finally have q: "q = pow2 (- ?j)" .
    have "pow2 (- ?j) < pow2 (- ?j + 1)" by (rule pow2_strict_mono) simp
    then show ?thesis using e q by simp
  next
    case neq: False
    then have e: "expo q = - ?j - 1" using False by (simp add: expo_def Let_def)
    have lt: "pow2 ?j < ?r" using lo neq by simp
    have p: "0 < pow2 ?j" by (rule pow2_pos)
    have "q < 1 / pow2 ?j" using lt p assms by (simp add: field_simps)
    also have "1 / pow2 ?j = pow2 (- ?j)" using pow2_diff [of 0 ?j] by (simp add: pow2_def)
    finally have B: "q < pow2 (- ?j)" .
    have p1: "0 < pow2 (?j + 1)" by (rule pow2_pos)
    have "1 / pow2 (?j + 1) < q" using hi p1 assms by (simp add: field_simps)
    moreover have "1 / pow2 (?j + 1) = pow2 (- ?j - 1)"
      using pow2_diff [of 0 "?j + 1"] by (simp add: pow2_def)
    ultimately have A: "pow2 (- ?j - 1) \<le> q" by simp
    show ?thesis using e A B by simp
  qed
qed

lemma expo_unique:
  assumes "0 < q" "pow2 e \<le> q" "q < pow2 (e + 1)"
  shows "expo q = e"
proof (rule ccontr)
  assume ne: "expo q \<noteq> e"
  from expo_bounds [OF assms(1)]
  have lo: "pow2 (expo q) \<le> q" and hi: "q < pow2 (expo q + 1)" by simp_all
  show False
  proof (cases "expo q < e")
    case True
    then have "pow2 (expo q + 1) \<le> pow2 e" by (intro pow2_mono) simp
    then show False using hi assms(2) by simp
  next
    case False
    then have "e + 1 \<le> expo q" using ne by simp
    then have "pow2 (e + 1) \<le> pow2 (expo q)" by (rule pow2_mono)
    then show False using lo assms(3) by simp
  qed
qed

lemma expo_mono:
  assumes "0 < q1" "q1 \<le> q2"
  shows "expo q1 \<le> expo q2"
proof (rule ccontr)
  assume "\<not> expo q1 \<le> expo q2"
  then have "expo q2 + 1 \<le> expo q1" by simp
  then have "pow2 (expo q2 + 1) \<le> pow2 (expo q1)" by (rule pow2_mono)
  moreover have "q2 < pow2 (expo q2 + 1)" using expo_bounds [of q2] assms by simp
  moreover have "pow2 (expo q1) \<le> q1" using expo_bounds [OF assms(1)] by simp
  ultimately show False using assms(2) by simp
qed


lemma round_half_even_cases:
  "round_half_even x = \<lfloor>x\<rfloor> \<or> round_half_even x = \<lfloor>x\<rfloor> + 1"
  by (simp add: round_half_even_def Let_def)

lemma round_half_even_of_int: "round_half_even (of_int n) = n"
  by (simp add: round_half_even_def)

lemma round_half_even_mono:
  assumes "x \<le> y"
  shows "round_half_even x \<le> round_half_even y"
proof (cases "\<lfloor>x\<rfloor> = \<lfloor>y\<rfloor>")
  case True
  have "x - of_int \<lfloor>x\<rfloor> \<le> y - of_int \<lfloor>y\<rfloor>" using assms True by simp
  then show ?thesis
    using True by (auto simp add: round_half_even_def Let_def)
next
  case False
  have "\<lfloor>x\<rfloor> \<le> \<lfloor>y\<rfloor>" using assms by (rule floor_mono)
  then have "\<lfloor>x\<rfloor> + 1 \<le> \<lfloor>y\<rfloor>" using False by simp
  moreover have "round_half_even x \<le> \<lfloor>x\<rfloor> + 1"
    using round_half_even_cases [of x] by auto
  moreover have "\<lfloor>y\<rfloor> \<le> round_half_even y"
    using round_half_even_cases [of y] by auto
  ultimately show ?thesis by simp
qed

lemma round_half_even_ge:
  "of_int n \<le> x \<Longrightarrow> n \<le> round_half_even x"
  using round_half_even_mono [of "of_int n" x] by (simp add: round_half_even_of_int)

lemma round_half_even_le:
  "x \<le> of_int n \<Longrightarrow> round_half_even x \<le> n"
  using round_half_even_mono [of x "of_int n"] by (simp add: round_half_even_of_int)

text \<open>The exponent and the unit that \<open>round_magnitude\<close> uses.\<close>

lemma round_magnitude_unfold:
  "round_magnitude q
     = of_int (round_half_even (q / pow2 (max (expo q) (- 1022) - 52)))
       * pow2 (max (expo q) (- 1022) - 52)"
  by (simp add: round_magnitude_def Let_def)

lemma round_magnitude_nonneg:
  assumes "0 < q"
  shows "0 \<le> round_magnitude q"
proof -
  let ?u = "pow2 (max (expo q) (- 1022) - 52)"
  have u: "0 < ?u" by (rule pow2_pos)
  have "of_int 0 \<le> q / ?u" using assms u by simp
  then have "0 \<le> round_half_even (q / ?u)" by (rule round_half_even_ge)
  then show ?thesis using u by (simp add: round_magnitude_unfold)
qed

lemma round_magnitude_upper:
  assumes "0 < q"
  shows "round_magnitude q \<le> pow2 (max (expo q) (- 1022) + 1)"
proof -
  let ?e = "max (expo q) (- 1022)"
  let ?u = "pow2 (?e - 52)"
  have u: "0 < ?u" by (rule pow2_pos)
  have "q < pow2 (expo q + 1)" using expo_bounds [OF assms] by simp
  also have "\<dots> \<le> pow2 (?e + 1)" by (rule pow2_mono) simp
  finally have "q / ?u < pow2 (?e + 1) / ?u" using u by (simp add: divide_strict_right_mono)
  also have "pow2 (?e + 1) / ?u = pow2 53"
    using pow2_diff [of "?e + 1" "?e - 52"] by simp
  also have "pow2 53 = of_int (2 ^ 53)" by (simp add: pow2_def)
  finally have "q / ?u \<le> of_int (2 ^ 53)" by simp
  then have "round_half_even (q / ?u) \<le> 2 ^ 53" by (rule round_half_even_le)
  then have "(of_int (round_half_even (q / ?u)) :: rat) \<le> of_int (2 ^ 53)"
    by (simp only: of_int_le_iff)
  then have "of_int (round_half_even (q / ?u)) * ?u \<le> of_int (2 ^ 53) * ?u"
    using u by (simp add: mult_right_mono)
  also have "of_int (2 ^ 53) * ?u = pow2 53 * ?u" by (simp add: pow2_def)
  also have "\<dots> = pow2 (?e + 1)"
    using pow2_add [of 53 "?e - 52"] by (simp add: algebra_simps)
  finally show ?thesis by (simp add: round_magnitude_unfold)
qed

lemma round_magnitude_lower:
  assumes "0 < q" "- 1022 \<le> expo q"
  shows "pow2 (expo q) \<le> round_magnitude q"
proof -
  let ?e = "expo q"
  let ?u = "pow2 (?e - 52)"
  have m: "max (expo q) (- 1022) = ?e" using assms(2) by simp
  have u: "0 < ?u" by (rule pow2_pos)
  have "pow2 ?e \<le> q" using expo_bounds [OF assms(1)] by simp
  then have "pow2 ?e / ?u \<le> q / ?u" using u by (simp add: divide_right_mono)
  moreover have "pow2 ?e / ?u = pow2 52" using pow2_diff [of ?e "?e - 52"] by simp
  moreover have "pow2 52 = of_int (2 ^ 52)" by (simp add: pow2_def)
  ultimately have "of_int (2 ^ 52) \<le> q / ?u" by simp
  then have "2 ^ 52 \<le> round_half_even (q / ?u)" by (rule round_half_even_ge)
  then have "(of_int (2 ^ 52) :: rat) \<le> of_int (round_half_even (q / ?u))"
    by (simp only: of_int_le_iff)
  then have "of_int (2 ^ 52) * ?u \<le> of_int (round_half_even (q / ?u)) * ?u"
    using u by (simp add: mult_right_mono)
  moreover have "of_int (2 ^ 52) * ?u = pow2 52 * ?u" by (simp add: pow2_def)
  moreover have "pow2 52 * ?u = pow2 ?e" using pow2_add [of 52 "?e - 52"] by simp
  ultimately show ?thesis by (simp add: round_magnitude_unfold m)
qed

lemma round_magnitude_mono:
  assumes "0 < q1" "q1 \<le> q2"
  shows "round_magnitude q1 \<le> round_magnitude q2"
proof -
  let ?e1 = "max (expo q1) (- 1022)"
  let ?e2 = "max (expo q2) (- 1022)"
  have q2: "0 < q2" using assms by simp
  have le: "?e1 \<le> ?e2" using expo_mono [OF assms] by simp
  show ?thesis
  proof (cases "?e1 = ?e2")
    case True
    let ?u = "pow2 (?e2 - 52)"
    have u: "0 < ?u" by (rule pow2_pos)
    have "q1 / ?u \<le> q2 / ?u" using assms(2) u by (simp add: divide_right_mono)
    then have "round_half_even (q1 / ?u) \<le> round_half_even (q2 / ?u)"
      by (rule round_half_even_mono)
    then have "(of_int (round_half_even (q1 / ?u)) :: rat) \<le> of_int (round_half_even (q2 / ?u))"
      by (simp only: of_int_le_iff)
    then have "of_int (round_half_even (q1 / ?u)) * ?u \<le> of_int (round_half_even (q2 / ?u)) * ?u"
      using u by (simp add: mult_right_mono)
    then show ?thesis using True by (simp add: round_magnitude_unfold)
  next
    case False
    then have lt: "?e1 < ?e2" using le by linarith
    have "- 1022 \<le> ?e1" by simp
    with lt have "- 1022 < ?e2" by linarith
    then have e2: "- 1022 \<le> expo q2" "?e2 = expo q2"
      by (simp_all add: max_def split: if_splits)
    have "round_magnitude q1 \<le> pow2 (?e1 + 1)" by (rule round_magnitude_upper [OF assms(1)])
    also have "\<dots> \<le> pow2 (expo q2)"
    proof (rule pow2_mono)
      show "?e1 + 1 \<le> expo q2" using lt e2(2) by linarith
    qed
    also have "\<dots> \<le> round_magnitude q2" by (rule round_magnitude_lower [OF q2 e2(1)])
    finally show ?thesis .
  qed
qed


lemma rnd_pos:
  "0 < q \<Longrightarrow> rnd q = (if pow2 1024 \<le> round_magnitude q then PInf
                              else Fin (round_magnitude q))"
  by (simp add: rnd_def Let_def)

lemma rnd_neg:
  "q < 0 \<Longrightarrow> rnd q = (if pow2 1024 \<le> round_magnitude (- q) then NInf
                              else Fin (- round_magnitude (- q)))"
  by (simp add: rnd_def Let_def)

lemma rnd_zero: "rnd 0 = Fin 0"
  by (simp add: rnd_def)

lemma rnd_minus: "rnd (- q) = js_neg (rnd q)"
proof -
  consider "q = 0" | "0 < q" | "q < 0" by linarith
  then show ?thesis
  proof cases
    case 1
    then show ?thesis by (simp add: rnd_zero)
  next
    case 2
    then show ?thesis by (simp add: rnd_pos rnd_neg)
  next
    case 3
    then show ?thesis by (simp add: rnd_pos rnd_neg)
  qed
qed

lemma rnd_not_NaN: "rnd q \<noteq> NaN"
  by (simp add: rnd_def Let_def)

lemma rnd_nonneg:
  assumes "0 \<le> q"
  shows "rnd q = PInf \<or> (\<exists>r. rnd q = Fin r \<and> 0 \<le> r)"
proof (cases "q = 0")
  case True
  then show ?thesis by (simp add: rnd_zero)
next
  case False
  then have "0 < q" using assms by simp
  then show ?thesis using round_magnitude_nonneg [of q] by (simp add: rnd_pos)
qed

lemma rnd_nonpos:
  assumes "q \<le> 0"
  shows "rnd q = NInf \<or> (\<exists>r. rnd q = Fin r \<and> r \<le> 0)"
proof -
  have "0 \<le> - q" using assms by simp
  from rnd_nonneg [OF this] show ?thesis
    by (cases "rnd q") (auto simp add: rnd_minus)
qed

lemma rnd_mono_pos:
  assumes "0 < q1" "q1 \<le> q2"
  shows "js_le (rnd q1) (rnd q2)"
proof -
  have q2: "0 < q2" using assms by simp
  have "round_magnitude q1 \<le> round_magnitude q2" by (rule round_magnitude_mono [OF assms])
  then show ?thesis using assms(1) q2 by (simp add: rnd_pos)
qed

lemma js_le_neg: "js_le (js_neg x) (js_neg y) = js_le y x"
  by (cases x; cases y) simp_all

lemma rnd_mono:
  assumes "q1 \<le> q2"
  shows "js_le (rnd q1) (rnd q2)"
proof -
  consider "0 < q1" | "q1 \<le> 0" "0 \<le> q2" | "q2 < 0" using assms by linarith
  then show ?thesis
  proof cases
    case 1
    then show ?thesis using assms by (rule rnd_mono_pos)
  next
    case 2
    from rnd_nonpos [OF 2(1)] rnd_nonneg [OF 2(2)] show ?thesis by auto
  next
    case 3
    then have "0 < - q2" "- q2 \<le> - q1" using assms by simp_all
    then have "js_le (rnd (- q2)) (rnd (- q1))" by (rule rnd_mono_pos)
    then show ?thesis by (simp add: rnd_minus js_le_neg)
  qed
qed

text \<open>Numbers with at most 53 significant bits are rounded to themselves.\<close>

lemma round_magnitude_scaled:
  assumes "0 < m" "m < 2 ^ 53" "- 1074 \<le> k"
  shows "round_magnitude (of_int m * pow2 k) = of_int m * pow2 k"
proof -
  let ?q = "of_int m * pow2 k :: rat"
  let ?e = "max (expo ?q) (- 1022)"
  have q: "0 < ?q" using assms(1) pow2_pos [of k] by simp
  have "(of_int m :: rat) < of_int (2 ^ 53)" using assms(2) by (simp only: of_int_less_iff)
  then have "(of_int m :: rat) < pow2 53" by (simp add: pow2_def)
  then have "?q < pow2 53 * pow2 k" using pow2_pos [of k] by (simp add: mult_strict_right_mono)
  then have up: "?q < pow2 (53 + k)" by (simp add: pow2_add)
  have "expo ?q < 53 + k"
  proof (rule ccontr)
    assume "\<not> expo ?q < 53 + k"
    then have "pow2 (53 + k) \<le> pow2 (expo ?q)" by (intro pow2_mono) simp
    then show False using up expo_bounds [OF q] by simp
  qed
  then have dk: "?e - 52 \<le> k" using assms(3) by simp
  define d where "d = ?e - 52"
  define j where "j = nat (k - d)"
  have kd: "k = d + int j" using dk by (simp add: d_def j_def)
  have "pow2 k = pow2 d * pow2 (int j)" unfolding kd by (rule pow2_add)
  also have "pow2 (int j) = of_int (2 ^ j)" by (simp add: pow2_def)
  finally have pk: "pow2 k = pow2 d * of_int (2 ^ j)" .
  have u: "pow2 d \<noteq> 0" using pow2_pos [of d] by simp
  have "of_int m * (pow2 d * of_int (2 ^ j)) / pow2 d = (of_int (m * 2 ^ j) :: rat)"
    using u by simp
  then have "?q / pow2 d = of_int (m * 2 ^ j)" by (simp only: pk)
  then have "round_half_even (?q / pow2 d) = m * 2 ^ j"
    by (simp only: round_half_even_of_int)
  then have "round_magnitude ?q = of_int (m * 2 ^ j) * pow2 d"
    unfolding round_magnitude_unfold d_def by simp
  also have "\<dots> = of_int m * (pow2 d * of_int (2 ^ j))" by simp
  also have "\<dots> = ?q" by (simp only: pk)
  finally show ?thesis .
qed

lemma rnd_scaled:
  assumes "\<bar>m\<bar> < 2 ^ 53" "- 1074 \<le> k" "\<bar>of_int m\<bar> * pow2 k < pow2 1024"
  shows "rnd (of_int m * pow2 k) = Fin (of_int m * pow2 k)"
proof -
  consider "m = 0" | "0 < m" | "m < 0" by linarith
  then show ?thesis
  proof cases
    case 1
    then show ?thesis by (simp add: rnd_zero)
  next
    case 2
    then have q: "0 < of_int m * pow2 k" using pow2_pos [of k] by simp
    have "round_magnitude (of_int m * pow2 k) = of_int m * pow2 k"
      using 2 assms by (intro round_magnitude_scaled) simp_all
    then show ?thesis using q assms(3) 2 by (simp add: rnd_pos)
  next
    case 3
    then have q: "of_int m * pow2 k < 0" using pow2_pos [of k] by (simp add: mult_neg_pos)
    have "round_magnitude (of_int (- m) * pow2 k) = of_int (- m) * pow2 k"
      using 3 assms by (intro round_magnitude_scaled) simp_all
    then have "round_magnitude (- (of_int m * pow2 k)) = - (of_int m * pow2 k)" by simp
    then show ?thesis using q assms(3) 3 by (simp add: rnd_neg)
  qed
qed

lemma rnd_of_int:
  assumes "\<bar>n\<bar> < 2 ^ 53"
  shows "rnd (of_int n) = Fin (of_int n)"
proof -
  have "\<bar>(of_int n :: rat)\<bar> = of_int \<bar>n\<bar>" by simp
  also have "\<dots> < of_int (2 ^ 53)" using assms by (simp only: of_int_less_iff)
  also have "\<dots> \<le> pow2 1024" by (simp add: pow2_def)
  finally have "\<bar>(of_int n :: rat)\<bar> * pow2 0 < pow2 1024" by (simp add: pow2_def)
  with rnd_scaled [of n 0] assms show ?thesis by (simp add: pow2_def)
qed

section \<open>Intervals of finite numbers\<close>

lemma between_Fin: "between lo hi (Fin q) = (lo \<le> q \<and> q \<le> hi)"
  by (simp add: between_def)

lemma betweenE:
  assumes "between lo hi x"
  obtains q where "x = Fin q" "lo \<le> q" "q \<le> hi"
  using assms by (cases x) (simp_all add: between_def)

lemma between_weaken:
  "between lo hi x \<Longrightarrow> lo' \<le> lo \<Longrightarrow> hi \<le> hi' \<Longrightarrow> between lo' hi' x"
  by (cases x) (simp_all add: between_def)

lemma rnd_between:
  assumes "lo \<le> q" "q \<le> hi" "rnd lo = Fin lo'" "rnd hi = Fin hi'"
  shows "between lo' hi' (rnd q)"
proof -
  have a: "js_le (Fin lo') (rnd q)" using rnd_mono [OF assms(1)] assms(3) by simp
  have b: "js_le (rnd q) (Fin hi')" using rnd_mono [OF assms(2)] assms(4) by simp
  show ?thesis using a b by (cases "rnd q") (simp_all add: between_def)
qed

lemma rnd_abs_between:
  assumes "\<bar>q\<bar> \<le> c" "rnd c = Fin c'"
  shows "between (- c') c' (rnd q)"
proof (rule rnd_between)
  show "- c \<le> q" "q \<le> c" using assms(1) by simp_all
  show "rnd c = Fin c'" by (rule assms(2))
  show "rnd (- c) = Fin (- c')" by (simp add: rnd_minus assms(2))
qed

lemma rnd_upto:
  assumes "0 \<le> q" "q \<le> c" "rnd c = Fin c'"
  shows "between 0 c' (rnd q)"
  using rnd_between [OF assms(1) assms(2) rnd_zero assms(3)] .

text \<open>Values that are rounded to themselves, and the top of the range.\<close>

lemma rnd_max_double: "rnd max_double = Fin max_double"
proof -
  have "rnd (of_int (2 ^ 53 - 1) * pow2 971) = Fin (of_int (2 ^ 53 - 1) * pow2 971)"
    by (rule rnd_scaled) (simp_all add: pow2_numeral)
  then show ?thesis by (simp add: max_double_def pow2_numeral)
qed

lemma rnd_top: "rnd (max_double + 500) = Fin max_double"
  by (simp add: max_double_def rnd_eval cong: let_weak_cong)

lemma rnd_pow2_fixed:
  "rnd (2 ^ 1021) = Fin (2 ^ 1021)"
  "rnd (2 ^ 1020) = Fin (2 ^ 1020)"
  "rnd (5 * 2 ^ 1021) = Fin (5 * 2 ^ 1021)"
  "rnd (5 * 2 ^ 1020) = Fin (5 * 2 ^ 1020)"
  "rnd (15 * 2 ^ 1020) = Fin (15 * 2 ^ 1020)"
  using rnd_scaled [of 1 1021] rnd_scaled [of 1 1020] rnd_scaled [of 5 1021]
    rnd_scaled [of 5 1020] rnd_scaled [of 15 1020]
  by (simp_all add: pow2_numeral)

lemma rnd_small_fixed:
  "rnd 1 = Fin 1" "rnd 12 = Fin 12" "rnd 20 = Fin 20" "rnd 150 = Fin 150"
  "rnd 300 = Fin 300" "rnd 850 = Fin 850"
  using rnd_of_int [of 1] rnd_of_int [of 12] rnd_of_int [of 20] rnd_of_int [of 150]
    rnd_of_int [of 300] rnd_of_int [of 850]
  by simp_all


lemma max_double_less: "max_double \<le> 8 * 2 ^ 1021"
  by (simp add: max_double_def)

lemma finite_doubleE:
  assumes "finite_double x"
  obtains q where "x = Fin q" "\<bar>q\<bar> \<le> max_double"
  using assms unfolding finite_double_def by (cases x) (simp_all add: between_def abs_le_iff)

lemma js_sub_Fin: "js_sub (Fin a) (Fin b) = rnd (a - b)"
  by (simp add: js_sub_def)

lemma shifted_finite:
  assumes "\<bar>q\<bar> \<le> max_double" "\<bar>c\<bar> \<le> 500"
  shows "between (- max_double) max_double (rnd (q + c))"
proof (rule rnd_abs_between [OF _ rnd_top])
  show "\<bar>q + c\<bar> \<le> max_double + 500" using assms by linarith
qed

text \<open>The two factors of the drop are finite.\<close>

lemma utilizationFactor_finite:
  assumes "finite_double x"
  shows "between 0 (2 ^ 1021) (Math_max (Fin 0) (js_div (js_sub (Fin 100) x) (Fin 10)))"
proof -
  obtain u where x: "x = Fin u" and u: "\<bar>u\<bar> \<le> max_double"
    using assms by (rule finite_doubleE)
  have "between (- max_double) max_double (rnd (- u + 100))"
    using shifted_finite [of "- u" 100] u by simp
  then obtain r where r: "rnd (100 - u) = Fin r" "- max_double \<le> r" "r \<le> max_double"
    by (auto elim: betweenE simp add: algebra_simps)
  have "\<bar>r / 10\<bar> \<le> 2 ^ 1021" using r max_double_less by (simp add: abs_le_iff)
  then have "between (- (2 ^ 1021)) (2 ^ 1021) (rnd (r / 10))"
    by (rule rnd_abs_between) (rule rnd_pow2_fixed)
  then obtain t where t: "rnd (r / 10) = Fin t" "t \<le> 2 ^ 1021"
    by (auto elim: betweenE)
  show ?thesis using x r(1) t by (simp add: js_sub_Fin between_def)
qed

lemma severityFactor_finite:
  assumes "finite_double x"
  shows "between 0 (2 ^ 1020) (Math_max (Fin 0) (js_div (js_sub x (Fin 500)) (Fin 20)))"
proof -
  obtain f where x: "x = Fin f" and f: "\<bar>f\<bar> \<le> max_double"
    using assms by (rule finite_doubleE)
  have "between (- max_double) max_double (rnd (f + (- 500)))"
    using shifted_finite [of f "- 500"] f by simp
  then obtain r where r: "rnd (f - 500) = Fin r" "- max_double \<le> r" "r \<le> max_double"
    by (auto elim: betweenE)
  have "\<bar>r / 20\<bar> \<le> 2 ^ 1020" using r max_double_less by (simp add: abs_le_iff)
  then have "between (- (2 ^ 1020)) (2 ^ 1020) (rnd (r / 20))"
    by (rule rnd_abs_between) (rule rnd_pow2_fixed)
  then obtain t where t: "rnd (r / 20) = Fin t" "t \<le> 2 ^ 1020"
    by (auto elim: betweenE)
  show ?thesis using x r(1) t by (simp add: js_sub_Fin between_def)
qed

lemma times_five:
  assumes "between 0 c x" "rnd (5 * c) = Fin (5 * c)"
  shows "between 0 (5 * c) (js_mul x (Fin 5))"
proof -
  obtain q where q: "x = Fin q" "0 \<le> q" "q \<le> c" using assms(1) by (rule betweenE)
  have "between 0 (5 * c) (rnd (q * 5))"
    by (rule rnd_upto [OF _ _ assms(2)]) (use q in simp_all)
  then show ?thesis using q by simp
qed

lemma drop_before_anchors:
  assumes "finite_double (utilization d)" "finite_double (ficoScore d)"
    and "between 0 (1 / 2) (weight_set.utilization w)"
  shows "between 0 (15 * 2 ^ 1020)
    (js_add
      (js_add (Fin 0)
         (js_mul (js_mul (Math_max (Fin 0) (js_div (js_sub (Fin 100) (utilization d)) (Fin 10)))
                   (Fin 5))
            (js_mul (weight_set.utilization w) (Fin 2))))
      (js_mul (Math_max (Fin 0) (js_div (js_sub (ficoScore d) (Fin 500)) (Fin 20))) (Fin 5)))"
proof -
  have "between 0 (5 * 2 ^ 1021)
      (js_mul (Math_max (Fin 0) (js_div (js_sub (Fin 100) (utilization d)) (Fin 10))) (Fin 5))"
    by (rule times_five [OF utilizationFactor_finite [OF assms(1)]]) (rule rnd_pow2_fixed)
  then obtain a where a: "js_mul (Math_max (Fin 0)
      (js_div (js_sub (Fin 100) (utilization d)) (Fin 10))) (Fin 5) = Fin a"
    "0 \<le> a" "a \<le> 5 * 2 ^ 1021" by (rule betweenE)
  obtain wu where wu: "weight_set.utilization w = Fin wu" "0 \<le> wu" "wu \<le> 1 / 2"
    using assms(3) by (rule betweenE)
  have "between 0 1 (rnd (wu * 2))"
    by (rule rnd_upto [OF _ _ rnd_small_fixed(1)]) (use wu in simp_all)
  then obtain b where b: "rnd (wu * 2) = Fin b" "0 \<le> b" "b \<le> 1" by (rule betweenE)
  have "a * b \<le> a * 1" by (rule mult_left_mono) (use a b in simp_all)
  then have ab: "0 \<le> a * b" "a * b \<le> 5 * 2 ^ 1021"
    using a b by simp_all
  have "between 0 (5 * 2 ^ 1021) (rnd (a * b))"
    by (rule rnd_upto [OF ab rnd_pow2_fixed(3)])
  then obtain p where p: "rnd (a * b) = Fin p" "0 \<le> p" "p \<le> 5 * 2 ^ 1021"
    by (rule betweenE)
  have "between 0 (5 * 2 ^ 1021) (rnd (0 + p))"
    by (rule rnd_upto [OF _ _ rnd_pow2_fixed(3)]) (use p in simp_all)
  then obtain d1 where d1: "rnd p = Fin d1" "0 \<le> d1" "d1 \<le> 5 * 2 ^ 1021"
    by (auto elim: betweenE)
  have "between 0 (5 * 2 ^ 1020)
      (js_mul (Math_max (Fin 0) (js_div (js_sub (ficoScore d) (Fin 500)) (Fin 20))) (Fin 5))"
    by (rule times_five [OF severityFactor_finite [OF assms(2)]]) (rule rnd_pow2_fixed)
  then obtain s where s: "js_mul (Math_max (Fin 0)
      (js_div (js_sub (ficoScore d) (Fin 500)) (Fin 20))) (Fin 5) = Fin s"
    "0 \<le> s" "s \<le> 5 * 2 ^ 1020" by (rule betweenE)
  have "between 0 (15 * 2 ^ 1020) (rnd (d1 + s))"
    by (rule rnd_upto [OF _ _ rnd_pow2_fixed(5)]) (use d1 s in simp_all)
  then show ?thesis by (simp add: a wu b p d1 s)
qed

lemma js_add_Fin_not_NaN: "y \<noteq> NaN \<Longrightarrow> js_add (Fin a) y \<noteq> NaN"
  by (cases y) (simp_all add: rnd_not_NaN)

lemma js_sub_Fin_not_NaN: "y \<noteq> NaN \<Longrightarrow> js_sub (Fin a) y \<noteq> NaN"
  by (cases y) (simp_all add: js_sub_def rnd_not_NaN)

lemma js_sub_const_not_NaN: "x \<noteq> NaN \<Longrightarrow> js_sub x (Fin c) \<noteq> NaN"
  by (cases x) (simp_all add: js_sub_def rnd_not_NaN)

lemma worst_case_drop_not_NaN:
  assumes "finite_double (utilization d)" "finite_double (ficoScore d)"
    and "finite_double (positiveAccounts d)"
    and "between 0 (1 / 2) (weight_set.utilization w)"
  shows "worst_case_drop d w \<noteq> NaN"
proof -
  obtain d2 where d2: "js_add
      (js_add (Fin 0)
         (js_mul (js_mul (Math_max (Fin 0) (js_div (js_sub (Fin 100) (utilization d)) (Fin 10)))
                   (Fin 5))
            (js_mul (weight_set.utilization w) (Fin 2))))
      (js_mul (Math_max (Fin 0) (js_div (js_sub (ficoScore d) (Fin 500)) (Fin 20))) (Fin 5))
      = Fin d2"
    using drop_before_anchors [OF assms(1,2,4)] by (auto elim: betweenE)
  obtain p where p: "positiveAccounts d = Fin p"
    using assms(3) by (auto elim: finite_doubleE)
  have "js_mul (positiveAccounts d) (Fin 10) \<noteq> NaN" by (simp add: p rnd_not_NaN)
  then have "js_sub (Fin d2) (js_mul (positiveAccounts d) (Fin 10)) \<noteq> NaN"
    by (rule js_sub_Fin_not_NaN)
  then show ?thesis
    by (simp add: worst_case_drop_def Let_def d2 js_sub_const_not_NaN)
qed

lemma clamp_round:
  assumes "x \<noteq> NaN"
  shows "whole_between 20 150 (Math_min (Fin 150) (Math_max (Fin 20) (Math_round x)))"
  using assms by (cases x) (simp_all add: whole_between_def is_int_def)

section \<open>Signs and numbers that are not NaN\<close>

lemma run_scores:
  "projectedScore (runSimulation d)
     = Math_min (Fin 850)
         (Math_round (js_add (lowPointScore (runSimulation d))
            (totalPotentialGain (numericData d) (weights (runSimulation d))
               (recoveryMonths (runSimulation d)))))"
  "scoreGain (runSimulation d)
     = js_sub (projectedScore (runSimulation d)) (initialScore (runSimulation d))"
  "milestoneStabilizationScore (runSimulation d)
     = Math_min (initialScore (runSimulation d))
         (js_add (lowPointScore (runSimulation d))
            (Math_round (js_mul (js_sub (projectedScore (runSimulation d))
                                   (lowPointScore (runSimulation d))) (lit (15 / 100)))))"
  "milestoneRecoveryScore (runSimulation d)
     = js_add (lowPointScore (runSimulation d))
         (Math_round (js_mul (js_sub (projectedScore (runSimulation d))
                                (lowPointScore (runSimulation d))) (lit (65 / 100))))"
  "savings (runSimulation d) = js_mul (totalDebt (numericData d)) (lit (55 / 100))"
  "postDTI (runSimulation d) = toFixed 1 (Math_min (Fin 50) (post_dti (numericData d)))"
  by (simp_all add: runSimulation_def assemble_def Let_def split_beta)


text \<open>Signs: a number that is not below zero, a number that is not above a bound.\<close>

lemma nonnegE:
  assumes "js_le (Fin 0) x"
  obtains "x = PInf" | r where "x = Fin r" "0 \<le> r"
  using assms by (cases x) (simp_all add: not_less)

lemma js_le_FinE:
  assumes "js_le x (Fin c)"
  obtains "x = NInf" | r where "x = Fin r" "r \<le> c"
  using assms by (cases x) (simp_all add: not_less)

lemma js_le_not_NaN: "js_le x y \<Longrightarrow> x \<noteq> NaN \<and> y \<noteq> NaN"
  by (cases x; cases y) simp_all

lemma rnd_nonneg_le: "0 \<le> q \<Longrightarrow> js_le (Fin 0) (rnd q)"
  using rnd_mono [of 0 q] by (simp add: rnd_zero)

lemma rnd_nonpos_le: "q \<le> 0 \<Longrightarrow> js_le (rnd q) (Fin 0)"
  using rnd_mono [of q 0] by (simp add: rnd_zero)

lemma add_nonneg:
  assumes "js_le (Fin 0) x" "js_le (Fin 0) y"
  shows "js_le (Fin 0) (js_add x y)"
  using assms by (elim nonnegE) (simp_all add: rnd_nonneg_le)

lemma mul_pos_nonneg:
  assumes "0 < a" "js_le (Fin 0) y"
  shows "js_le (Fin 0) (js_mul (Fin a) y)"
  using assms by (elim nonnegE) (simp_all add: rnd_nonneg_le signed_inf_def)

lemma div_nonneg:
  assumes "js_le (Fin 0) x" "0 < c"
  shows "js_le (Fin 0) (js_div x (Fin c))"
  using assms by (elim nonnegE) (simp_all add: rnd_nonneg_le)

lemma add_bounded_above:
  assumes "js_le x (Fin c)" "js_le y (Fin 0)" "rnd c = Fin c'"
  shows "js_le (js_add x y) (Fin c')"
proof -
  have "js_le (rnd (a + b)) (Fin c')" if "a \<le> c" "b \<le> 0" for a b
    using rnd_mono [of "a + b" c] that by (simp add: assms(3))
  then show ?thesis
    using assms(1,2) by (elim js_le_FinE) simp_all
qed

lemma mul_pos_nonpos:
  assumes "0 < a" "js_le y (Fin 0)"
  shows "js_le (js_mul (Fin a) y) (Fin 0)"
  using assms
  by (elim js_le_FinE) (simp_all add: rnd_nonpos_le signed_inf_def mult_nonneg_nonpos)

lemma div_nonpos:
  assumes "js_le x (Fin 0)" "0 < c"
  shows "js_le (js_div x (Fin c)) (Fin 0)"
  using assms by (elim js_le_FinE) (simp_all add: rnd_nonpos_le divide_nonpos_pos)

lemma js_add_const_not_NaN: "x \<noteq> NaN \<Longrightarrow> js_add x (Fin c) \<noteq> NaN"
  by (cases x) (simp_all add: rnd_not_NaN)

lemma Math_round_not_NaN: "x \<noteq> NaN \<Longrightarrow> Math_round x \<noteq> NaN"
  by (cases x) simp_all

lemma Math_min_not_NaN: "x \<noteq> NaN \<Longrightarrow> y \<noteq> NaN \<Longrightarrow> Math_min x y \<noteq> NaN"
  by (cases x; cases y) simp_all

lemma Math_max_not_NaN: "x \<noteq> NaN \<Longrightarrow> y \<noteq> NaN \<Longrightarrow> Math_max x y \<noteq> NaN"
  by (cases x; cases y) simp_all

lemma js_sub_Fin_right_not_NaN: "x \<noteq> NaN \<Longrightarrow> js_sub x (Fin c) \<noteq> NaN"
  by (cases x) (simp_all add: js_sub_def rnd_not_NaN)

lemma js_mul_pos_not_NaN: "x \<noteq> NaN \<Longrightarrow> 0 < c \<Longrightarrow> js_mul x (Fin c) \<noteq> NaN"
  by (cases x) (simp_all add: rnd_not_NaN signed_inf_def)

text \<open>The tools add a finite bonus.\<close>

lemma toolGain_cases:
  "toolGain nd \<in> {Fin 0, Fin 10, Fin 25, Fin 35, Fin 30, Fin 40, Fin 55, Fin 65}"
  by (cases "truthy (securedCard nd)"; cases "truthy (creditBuilder nd)";
      cases "truthy (authorizedUser nd)")
    (simp_all add: toolGain_def Let_def rnd_eval)

lemma toolGain_between: "between 0 65 (toolGain nd)"
  using toolGain_cases [of nd] by (auto simp add: between_def)


lemma weight_rangeE:
  assumes "weight_range w"
  obtains p u a where
    "paymentHistory w = Fin p" "8 / 100 \<le> p" "p \<le> 43 / 100"
    "weight_set.utilization w = Fin u" "8 / 100 \<le> u" "u \<le> 43 / 100"
    "accountAge w = Fin a" "8 / 100 \<le> a" "a \<le> 43 / 100"
proof -
  have "between (8 / 100) (43 / 100) (paymentHistory w)"
    "between (8 / 100) (43 / 100) (weight_set.utilization w)"
    "between (8 / 100) (43 / 100) (accountAge w)"
    using assms by (simp_all add: weight_range_def)
  then show ?thesis using that by (elim betweenE) blast
qed

lemma rnd_gain_fixed:
  "rnd 4 = Fin 4" "rnd 22 = Fin 22" "rnd 65 = Fin 65" "rnd 108 = Fin 108"
  using rnd_of_int [of 4] rnd_of_int [of 22] rnd_of_int [of 65] rnd_of_int [of 108]
  by simp_all

text \<open>The three weighted gains before the time factor.\<close>

lemma weighted_gains:
  assumes "weight_range w"
  obtains g1 hp ha where
    "js_add (Fin 0) (js_mul (weight_set.utilization w) (Fin 250)) = Fin g1"
    "20 \<le> g1" "g1 \<le> 108"
    "js_mul (paymentHistory w) (Fin 150) = Fin hp" "12 \<le> hp" "hp \<le> 65"
    "js_mul (accountAge w) (Fin 50) = Fin ha" "4 \<le> ha" "ha \<le> 22"
proof -
  obtain p u a where w:
    "paymentHistory w = Fin p" "8 / 100 \<le> p" "p \<le> 43 / 100"
    "weight_set.utilization w = Fin u" "8 / 100 \<le> u" "u \<le> 43 / 100"
    "accountAge w = Fin a" "8 / 100 \<le> a" "a \<le> 43 / 100"
    using assms by (rule weight_rangeE)
  have "between 20 108 (rnd (u * 250))"
    by (rule rnd_between [OF _ _ rnd_small_fixed(3) rnd_gain_fixed(4)]) (use w in simp_all)
  then obtain x where x: "rnd (u * 250) = Fin x" "20 \<le> x" "x \<le> 108" by (rule betweenE)
  have "between 20 108 (rnd (0 + x))"
    by (rule rnd_between [OF _ _ rnd_small_fixed(3) rnd_gain_fixed(4)]) (use x in simp_all)
  then obtain g1 where g1: "rnd x = Fin g1" "20 \<le> g1" "g1 \<le> 108"
    by (auto elim: betweenE)
  have "between 12 65 (rnd (p * 150))"
    by (rule rnd_between [OF _ _ rnd_small_fixed(2) rnd_gain_fixed(3)]) (use w in simp_all)
  then obtain hp where hp: "rnd (p * 150) = Fin hp" "12 \<le> hp" "hp \<le> 65"
    by (rule betweenE)
  have "between 4 22 (rnd (a * 50))"
    by (rule rnd_between [OF _ _ rnd_gain_fixed(1) rnd_gain_fixed(2)]) (use w in simp_all)
  then obtain ha where ha: "rnd (a * 50) = Fin ha" "4 \<le> ha" "ha \<le> 22"
    by (rule betweenE)
  show ?thesis
    by (rule that [of g1 hp ha]) (simp_all add: w x g1 hp ha)
qed

lemma gain_nonneg:
  assumes "weight_range w" "js_le (Fin 0) months"
  shows "js_le (Fin 0) (totalPotentialGain nd w months)"
proof -
  obtain g1 hp ha where g:
    "js_add (Fin 0) (js_mul (weight_set.utilization w) (Fin 250)) = Fin g1"
    "20 \<le> g1" "g1 \<le> 108"
    "js_mul (paymentHistory w) (Fin 150) = Fin hp" "12 \<le> hp" "hp \<le> 65"
    "js_mul (accountAge w) (Fin 50) = Fin ha" "4 \<le> ha" "ha \<le> 22"
    using assms(1) by (rule weighted_gains)
  have mq: "js_le (Fin 0) (js_div months (Fin 36))"
    by (rule div_nonneg [OF assms(2)]) simp
  have h: "js_le (Fin 0) (js_mul (Fin hp) (js_div months (Fin 36)))"
    by (rule mul_pos_nonneg [OF _ mq]) (use g in simp)
  have a: "js_le (Fin 0) (js_mul (Fin ha) (js_div months (Fin 36)))"
    by (rule mul_pos_nonneg [OF _ mq]) (use g in simp)
  have g1: "js_le (Fin 0) (Fin g1)" using g by simp
  have t: "js_le (Fin 0) (toolGain nd)"
    using toolGain_between [of nd] by (auto elim: betweenE)
  show ?thesis
    unfolding totalPotentialGain_def Let_def g
    by (intro add_nonneg g1 h a t)
qed

lemma gain_not_NaN_neg:
  assumes "weight_range w" "js_le months (Fin 0)"
  shows "totalPotentialGain nd w months \<noteq> NaN"
proof -
  obtain g1 hp ha where g:
    "js_add (Fin 0) (js_mul (weight_set.utilization w) (Fin 250)) = Fin g1"
    "20 \<le> g1" "g1 \<le> 108"
    "js_mul (paymentHistory w) (Fin 150) = Fin hp" "12 \<le> hp" "hp \<le> 65"
    "js_mul (accountAge w) (Fin 50) = Fin ha" "4 \<le> ha" "ha \<le> 22"
    using assms(1) by (rule weighted_gains)
  have mq: "js_le (js_div months (Fin 36)) (Fin 0)"
    by (rule div_nonpos [OF assms(2)]) simp
  have h: "js_le (js_mul (Fin hp) (js_div months (Fin 36))) (Fin 0)"
    by (rule mul_pos_nonpos [OF _ mq]) (use g in simp)
  have a: "js_le (js_mul (Fin ha) (js_div months (Fin 36))) (Fin 0)"
    by (rule mul_pos_nonpos [OF _ mq]) (use g in simp)
  have g1: "js_le (Fin g1) (Fin 108)" using g by simp
  have g2: "js_le (js_add (Fin g1) (js_mul (Fin hp) (js_div months (Fin 36)))) (Fin 108)"
    by (rule add_bounded_above [OF g1 h rnd_gain_fixed(4)])
  have g3: "js_le (js_add (js_add (Fin g1) (js_mul (Fin hp) (js_div months (Fin 36))))
      (js_mul (Fin ha) (js_div months (Fin 36)))) (Fin 108)"
    by (rule add_bounded_above [OF g2 a rnd_gain_fixed(4)])
  obtain t where t: "toolGain nd = Fin t"
    using toolGain_between [of nd] by (auto elim: betweenE)
  show ?thesis
    unfolding totalPotentialGain_def Let_def g t
    by (rule js_add_const_not_NaN) (use g3 js_le_not_NaN in blast)
qed

lemma gain_not_NaN:
  assumes "weight_range w" "months \<noteq> NaN"
  shows "totalPotentialGain nd w months \<noteq> NaN"
proof (cases "js_le (Fin 0) months")
  case True
  then show ?thesis using gain_nonneg [OF assms(1) True] js_le_not_NaN by blast
next
  case False
  then have "js_le months (Fin 0)" using assms(2) by (cases months) simp_all
  then show ?thesis by (rule gain_not_NaN_neg [OF assms(1)])
qed

section \<open>Finite profiles\<close>

lemma finite_double_zero: "finite_double (Fin 0)" "finite_double (Fin 36)"
  by (simp_all add: finite_double_def between_def max_double_def)

lemma or_else_finite:
  assumes "convertible v" "finite_double c"
  shows "finite_double (or_else (Number v) c)"
  using assms by (cases "Number v") (auto simp add: convertible_def or_else_def finite_double_def between_def)

lemma numericData_finite:
  assumes "finite_profile d"
  shows "finite_double (ficoScore (numericData d))"
    "finite_double (totalDebt (numericData d))"
    "finite_double (monthlyIncome (numericData d))"
    "finite_double (utilization (numericData d))"
    "finite_double (positiveAccounts (numericData d))"
    "finite_double (programTimeline (numericData d))"
    "finite_double (monthsInProgram (numericData d))"
  using assms
  by (simp_all add: finite_profile_def numericData_def or_else_finite finite_double_zero)

lemma finite_double_not_NaN: "finite_double x \<Longrightarrow> x \<noteq> NaN"
  by (auto elim: finite_doubleE)

lemma profile_weights_range: "weight_range (profile_weights nd)"
  by (simp add: profile_weights_def weights_in_range)

lemma weight_range_utilization:
  "weight_range w \<Longrightarrow> between 0 (1 / 2) (weight_set.utilization w)"
  by (erule weight_rangeE) (simp add: between_def)

text \<open>The scenario branch on a finite profile.\<close>

lemma impact_whole:
  assumes "finite_double (utilization nd)" "finite_double (ficoScore nd)"
    "finite_double (positiveAccounts nd)" "weight_range w"
  shows "whole_between 20 150 (calculateWorstCaseImpact nd w)"
  unfolding calculateWorstCaseImpact_def
  by (rule clamp_round)
    (rule worst_case_drop_not_NaN [OF assms(1-3) weight_range_utilization [OF assms(4)]])

lemma whole_betweenE:
  assumes "whole_between lo hi x"
  obtains n where "x = Fin (of_int n)" "lo \<le> n" "n \<le> hi"
proof -
  obtain q where q: "x = Fin q" "is_int q" "of_int lo \<le> q" "q \<le> of_int hi"
    using assms by (cases x) (simp_all add: whole_between_def)
  from q(2) have "q = of_int \<lfloor>q\<rfloor>" unfolding is_int_def by (rule sym)
  then obtain n where n: "q = of_int n" by blast
  have "lo \<le> n" "n \<le> hi" using q(3,4) unfolding n by (simp_all only: of_int_le_iff)
  then show ?thesis using that [of n] q(1) n by blast
qed

lemma low_point_pre:
  assumes "finite_double f" "whole_between 20 150 i"
  shows "between 300 max_double (Math_max (Fin 300) (js_sub f i))"
proof -
  obtain q where q: "f = Fin q" "\<bar>q\<bar> \<le> max_double" using assms(1) by (rule finite_doubleE)
  obtain n where n: "i = Fin (of_int n)" "20 \<le> n" "n \<le> 150" using assms(2) by (rule whole_betweenE)
  have "\<bar>- (of_int n :: rat)\<bar> \<le> 500" using n by simp
  from shifted_finite [OF q(2) this]
  obtain r where r: "rnd (q - of_int n) = Fin r" "r \<le> max_double"
    by (auto elim: betweenE)
  have "300 \<le> max_double" by (simp add: max_double_def)
  then show ?thesis using q n r by (simp add: js_sub_Fin between_def)
qed

lemma scenario_finite:
  assumes "finite_double (ficoScore nd)" "finite_double (utilization nd)"
    "finite_double (positiveAccounts nd)" "finite_double (programTimeline nd)"
    "finite_double (monthsInProgram nd)" "weight_range w"
  shows "fst (scenario nd w) \<noteq> NaN \<and> finite_double (fst (snd (scenario nd w)))
    \<and> snd (snd (scenario nd w)) \<noteq> NaN"
proof (cases "scenarioType nd = Str ''pre-enrollment''")
  case True
  have i: "whole_between 20 150 (calculateWorstCaseImpact nd w)"
    by (rule impact_whole [OF assms(2,1,3,6)])
  have "between 300 max_double
      (Math_max (Fin 300) (js_sub (ficoScore nd) (calculateWorstCaseImpact nd w)))"
    by (rule low_point_pre [OF assms(1) i])
  then have "finite_double (Math_max (Fin 300) (js_sub (ficoScore nd) (calculateWorstCaseImpact nd w)))"
    unfolding finite_double_def by (rule between_weaken) (simp_all add: max_double_def)
  moreover have "calculateWorstCaseImpact nd w \<noteq> NaN"
    using i by (auto elim: whole_betweenE)
  ultimately show ?thesis
    using True assms(4) by (simp add: scenario_def Let_def finite_double_not_NaN)
next
  case False
  obtain t where t: "programTimeline nd = Fin t" using assms(4) by (auto elim: finite_doubleE)
  obtain m where m: "monthsInProgram nd = Fin m" using assms(5) by (auto elim: finite_doubleE)
  have "Math_max (Fin 12) (js_sub (programTimeline nd) (monthsInProgram nd)) \<noteq> NaN"
    by (intro Math_max_not_NaN) (simp_all add: t m js_sub_Fin rnd_not_NaN)
  then show ?thesis using False assms(1) by (simp add: scenario_def)
qed

section \<open>Numeric results and the score bounds\<close>

lemma between_not_NaN: "between lo hi x \<Longrightarrow> x \<noteq> NaN"
  by (auto elim: betweenE)

lemma weight_range_not_NaN:
  assumes "weight_range w"
  shows "paymentHistory w \<noteq> NaN" "weight_set.utilization w \<noteq> NaN" "accountAge w \<noteq> NaN"
    "creditMix w \<noteq> NaN" "newCredit w \<noteq> NaN"
  using assms by (auto simp add: weight_range_def dest: between_not_NaN)

lemma milestone_not_NaN:
  assumes "p \<noteq> NaN" "finite_double l" "0 < c"
  shows "js_add l (Math_round (js_mul (js_sub p l) (Fin c))) \<noteq> NaN"
proof -
  obtain q where q: "l = Fin q" using assms(2) by (auto elim: finite_doubleE)
  have "js_sub p (Fin q) \<noteq> NaN" by (rule js_sub_Fin_right_not_NaN [OF assms(1)])
  then have "js_mul (js_sub p (Fin q)) (Fin c) \<noteq> NaN"
    by (rule js_mul_pos_not_NaN [OF _ assms(3)])
  then have "Math_round (js_mul (js_sub p (Fin q)) (Fin c)) \<noteq> NaN"
    by (rule Math_round_not_NaN)
  then show ?thesis unfolding q by (rule js_add_Fin_not_NaN)
qed

lemma numeric_result_finite:
  assumes "finite_profile d"
  shows "numeric_result (runSimulation d)"
proof -
  let ?nd = "numericData d"
  let ?r = "runSimulation d"
  note fin = numericData_finite [OF assms]
  have wr: "weight_range (weights ?r)"
    by (simp add: run_fields profile_weights_range)
  have sc: "impactPenalty ?r \<noteq> NaN" "finite_double (lowPointScore ?r)"
    "recoveryMonths ?r \<noteq> NaN"
    using scenario_finite [OF fin(1) fin(4) fin(5) fin(6) fin(7) profile_weights_range, of ?nd]
    by (simp_all add: run_fields)
  have ini: "finite_double (initialScore ?r)" using fin(1) by (simp add: run_fields)
  obtain f where f: "initialScore ?r = Fin f" using ini by (auto elim: finite_doubleE)
  obtain l where l: "lowPointScore ?r = Fin l" using sc(2) by (auto elim: finite_doubleE)
  have "totalPotentialGain ?nd (weights ?r) (recoveryMonths ?r) \<noteq> NaN"
    by (rule gain_not_NaN [OF wr sc(3)])
  then have "js_add (lowPointScore ?r)
      (totalPotentialGain ?nd (weights ?r) (recoveryMonths ?r)) \<noteq> NaN"
    unfolding l by (rule js_add_Fin_not_NaN)
  then have p: "projectedScore ?r \<noteq> NaN"
    by (simp add: run_scores(1) Math_min_not_NaN Math_round_not_NaN)
  have g: "scoreGain ?r \<noteq> NaN"
    unfolding run_scores(2) f by (rule js_sub_Fin_right_not_NaN [OF p])
  obtain t where t: "totalDebt ?nd = Fin t" using fin(2) by (auto elim: finite_doubleE)
  have s: "savings ?r \<noteq> NaN"
    by (simp add: run_scores(5) t lit_values rnd_not_NaN)
  have st: "milestoneStabilizationScore ?r \<noteq> NaN"
    unfolding run_scores(3)
    by (intro Math_min_not_NaN finite_double_not_NaN [OF ini])
      (simp add: lit_values milestone_not_NaN [OF p sc(2)])
  have re: "milestoneRecoveryScore ?r \<noteq> NaN"
    unfolding run_scores(4) by (simp add: lit_values milestone_not_NaN [OF p sc(2)])
  show ?thesis
    unfolding numeric_result_def
    using sc p g s st re weight_range_not_NaN [OF wr] finite_double_not_NaN [OF ini]
      finite_double_not_NaN [OF sc(2)]
    by (simp add: run_fields(6))
qed

text \<open>The two clamps.\<close>

lemma Math_min_not_above: "\<not> js_gt (Math_min (Fin c) y) (Fin c)"
  by (cases y) (simp_all add: js_gt_def)

lemma Math_max_not_below: "\<not> js_lt (Math_max (Fin c) y) (Fin c)"
  by (cases y) simp_all

lemma not_above_le: "x \<noteq> NaN \<Longrightarrow> \<not> js_gt x (Fin c) \<Longrightarrow> js_le x (Fin c)"
  by (cases x) (simp_all add: js_gt_def)

lemma not_below_ge: "x \<noteq> NaN \<Longrightarrow> \<not> js_lt x (Fin c) \<Longrightarrow> js_ge x (Fin c)"
  by (cases x) (simp_all add: js_ge_def)

lemma low_point_pre_enrollment:
  assumes "scenarioType d = Str ''pre-enrollment''"
  shows "\<not> js_lt (lowPointScore (runSimulation d)) (Fin 300)"
  using assms
  by (simp add: run_fields scenario_def numericData_scenario Let_def Math_max_not_below)

lemma low_point_other:
  assumes "scenarioType d \<noteq> Str ''pre-enrollment''"
  shows "lowPointScore (runSimulation d) = ficoScore (numericData d)"
  using assms by (simp add: run_fields scenario_other numericData_scenario)

text \<open>
  C5 (as amended).  For every input record the projected score is never above 850; in
  the pre-enrollment scenario the low point is never below 300, and in any other
  scenario it is the score itself.  When no field is infinite both are numbers: the
  projected score is at most 850 and the pre-enrollment low point at least 300.
\<close>

theorem score_bounds:
  "\<not> js_gt (projectedScore (runSimulation d)) (Fin 850)
   \<and> (scenarioType d = Str ''pre-enrollment''
        \<longrightarrow> \<not> js_lt (lowPointScore (runSimulation d)) (Fin 300))
   \<and> (scenarioType d \<noteq> Str ''pre-enrollment''
        \<longrightarrow> lowPointScore (runSimulation d) = ficoScore (numericData d))
   \<and> (finite_profile d
        \<longrightarrow> js_le (projectedScore (runSimulation d)) (Fin 850)
          \<and> (scenarioType d = Str ''pre-enrollment''
               \<longrightarrow> js_ge (lowPointScore (runSimulation d)) (Fin 300)))"
proof (intro conjI impI)
  show a: "\<not> js_gt (projectedScore (runSimulation d)) (Fin 850)"
    unfolding run_scores(1) by (rule Math_min_not_above)
  show "\<not> js_lt (lowPointScore (runSimulation d)) (Fin 300)"
    if "scenarioType d = Str ''pre-enrollment''"
    using that by (rule low_point_pre_enrollment)
  show "lowPointScore (runSimulation d) = ficoScore (numericData d)"
    if "scenarioType d \<noteq> Str ''pre-enrollment''"
    using that by (rule low_point_other)
  assume fin: "finite_profile d"
  from numeric_result_finite [OF fin]
  have n: "projectedScore (runSimulation d) \<noteq> NaN" "lowPointScore (runSimulation d) \<noteq> NaN"
    by (simp_all add: numeric_result_def)
  show "js_le (projectedScore (runSimulation d)) (Fin 850)"
    by (rule not_above_le [OF n(1) a])
  show "js_ge (lowPointScore (runSimulation d)) (Fin 300)"
    if "scenarioType d = Str ''pre-enrollment''"
    by (rule not_below_ge [OF n(2) low_point_pre_enrollment [OF that]])
qed

section \<open>The impact, the score bounds and the zero income\<close>

text \<open>
  C3 (as amended).  For every profile whose utilization, score and positive accounts are
  finite numbers, and a utilization weight from 0 to 0.5 (as \<^verbatim>\<open>calculateWeights\<close> returns),
  the raw drop is a number and \<^verbatim>\<open>calculateWorstCaseImpact\<close> returns a whole number from 20
  to 150: the raw drop rounded half-up to the nearest integer and then clamped.
\<close>

theorem worst_case_impact_clamped:
  assumes "finite_double (utilization d)" "finite_double (ficoScore d)"
    and "finite_double (positiveAccounts d)"
    and "between 0 (1 / 2) (weight_set.utilization w)"
  shows "whole_between 20 150 (calculateWorstCaseImpact d w)
    \<and> (case worst_case_drop d w of
         Fin r \<Rightarrow> calculateWorstCaseImpact d w = Fin (of_int (min 150 (max 20 \<lfloor>r + 1 / 2\<rfloor>)))
       | PInf \<Rightarrow> calculateWorstCaseImpact d w = Fin 150
       | NInf \<Rightarrow> calculateWorstCaseImpact d w = Fin 20
       | NaN \<Rightarrow> False)"
proof -
  have n: "worst_case_drop d w \<noteq> NaN" using assms by (rule worst_case_drop_not_NaN)
  have "whole_between 20 150 (calculateWorstCaseImpact d w)"
    unfolding calculateWorstCaseImpact_def using n by (rule clamp_round)
  moreover have "case worst_case_drop d w of
         Fin r \<Rightarrow> calculateWorstCaseImpact d w = Fin (of_int (min 150 (max 20 \<lfloor>r + 1 / 2\<rfloor>)))
       | PInf \<Rightarrow> calculateWorstCaseImpact d w = Fin 150
       | NInf \<Rightarrow> calculateWorstCaseImpact d w = Fin 20
       | NaN \<Rightarrow> False"
    using n by (cases "worst_case_drop d w") (auto simp add: calculateWorstCaseImpact_def)
  ultimately show ?thesis by simp
qed

theorem worst_case_impact_scenario_A:
  "whole_between 20 150
     (calculateWorstCaseImpact (numericData (profile_A (Num (Fin 1))))
        \<lparr> paymentHistory = lit (30 / 100), utilization = lit (30 / 100),
          accountAge = lit (15 / 100), creditMix = lit (15 / 100),
          newCredit = lit (10 / 100) \<rparr>)"
proof -
  have "finite_double (utilization (numericData (profile_A (Num (Fin 1)))))"
    "finite_double (ficoScore (numericData (profile_A (Num (Fin 1)))))"
    "finite_double (positiveAccounts (numericData (profile_A (Num (Fin 1)))))"
    by (simp_all add: profile_A_def numericData_def or_else_def finite_double_def between_def
        max_double_def)
  moreover have "between 0 (1 / 2)
      (weight_set.utilization \<lparr> paymentHistory = lit (30 / 100), utilization = lit (30 / 100),
          accountAge = lit (15 / 100), creditMix = lit (15 / 100),
          newCredit = lit (10 / 100) \<rparr>)"
    by (simp add: lit_values between_def)
  ultimately show ?thesis
    using worst_case_impact_clamped by blast
qed

text \<open>
  C3 as stated fails on infinite fields: with an infinite score and infinitely many
  positive accounts the drop is \<open>\<infinity> - \<infinity>\<close>, and the clamps let NaN through.
\<close>

theorem worst_case_impact_infinite:
  "calculateWorstCaseImpact
     (numericData ((profile_A (Num (Fin 1)))\<lparr> ficoScore := Num PInf, positiveAccounts := Num PInf \<rparr>))
     (profile_weights
       (numericData ((profile_A (Num (Fin 1)))\<lparr> ficoScore := Num PInf, positiveAccounts := Num PInf \<rparr>)))
   = NaN"
  by (simp add: profile_A_def engine_eval cong: let_weak_cong)

lemma profile_A_finite: "finite_profile (profile_A (Num (Fin 1)))"
  by (simp add: finite_profile_def profile_A_def convertible_def finite_double_def between_def
      max_double_def)

theorem score_bounds_scenario_A:
  "js_le (projectedScore (runSimulation (profile_A (Num (Fin 1))))) (Fin 850)
   \<and> js_ge (lowPointScore (runSimulation (profile_A (Num (Fin 1))))) (Fin 300)"
proof -
  have "scenarioType (profile_A (Num (Fin 1))) = Str ''pre-enrollment''"
    by (simp add: profile_A_def)
  then show ?thesis
    using score_bounds [of "profile_A (Num (Fin 1))"] profile_A_finite by blast
qed

text \<open>
  C7 (as amended).  When the monthly income is zero (or missing, or not numeric),
  \<^verbatim>\<open>calculateWeights\<close> takes the debt-to-income ratio 1 without dividing, so the DTI rule
  applies, and the debt-to-income percentage of the result is "0.0".  No input whose
  numeric fields are finite produces a score that is NaN.
\<close>

theorem zero_income:
  assumes "monthlyIncome (numericData d) = Fin 0"
  shows "debt_to_income (totalDebt (numericData d)) (monthlyIncome (numericData d)) = Fin 1
    \<and> adjust_dti (totalDebt (numericData d)) (monthlyIncome (numericData d)) w = dti_rule w
    \<and> postDTI (runSimulation d) = Chars ''0.0''
    \<and> (finite_profile d \<longrightarrow> numeric_result (runSimulation d))"
proof -
  have dti: "debt_to_income (totalDebt (numericData d)) (monthlyIncome (numericData d)) = Fin 1"
    using assms by (simp add: debt_to_income_def js_gt_def)
  have "adjust_dti (totalDebt (numericData d)) (monthlyIncome (numericData d)) w = dti_rule w"
    by (simp add: adjust_dti_def dti lit_values js_gt_def)
  moreover have "post_dti (numericData d) = Fin 0"
    using assms by (simp add: post_dti_def Let_def js_gt_def)
  then have "postDTI (runSimulation d) = Chars ''0.0''"
    by (simp add: run_scores(6) toFixed_n_def pad_zeros_def digits.simps digit_char_def)
  ultimately show ?thesis using dti numeric_result_finite by blast
qed

theorem zero_income_scenario_A:
  "debt_to_income (totalDebt (numericData ((profile_A (Num (Fin 1)))\<lparr> monthlyIncome := Num (Fin 0) \<rparr>)))
     (monthlyIncome (numericData ((profile_A (Num (Fin 1)))\<lparr> monthlyIncome := Num (Fin 0) \<rparr>))) = Fin 1
   \<and> postDTI (runSimulation ((profile_A (Num (Fin 1)))\<lparr> monthlyIncome := Num (Fin 0) \<rparr>)) = Chars ''0.0''
   \<and> numeric_result (runSimulation ((profile_A (Num (Fin 1)))\<lparr> monthlyIncome := Num (Fin 0) \<rparr>))"
proof -
  have "monthlyIncome (numericData ((profile_A (Num (Fin 1)))\<lparr> monthlyIncome := Num (Fin 0) \<rparr>)) = Fin 0"
    by (simp add: numericData_def or_else_def)
  moreover have "finite_profile ((profile_A (Num (Fin 1)))\<lparr> monthlyIncome := Num (Fin 0) \<rparr>)"
    by (simp add: finite_profile_def profile_A_def convertible_def finite_double_def between_def
      max_double_def)
  ultimately show ?thesis
    using zero_income [of "(profile_A (Num (Fin 1)))\<lparr> monthlyIncome := Num (Fin 0) \<rparr>"] by blast
qed

text \<open>
  C7 as stated fails on infinite fields: with no income, an infinitely negative
  utilization and infinitely many positive accounts, the low point is NaN.
\<close>

theorem zero_income_infinite_score:
  "lowPointScore (runSimulation ((profile_A (Num (Fin 1)))\<lparr> monthlyIncome := Num (Fin 0),
      utilization := Num NInf, positiveAccounts := Num PInf \<rparr>)) = NaN"
  by (simp add: profile_A_def engine_eval cong: let_weak_cong)

section \<open>The coercion of the fields\<close>

lemma or_else_not_NaN: "c \<noteq> NaN \<Longrightarrow> or_else x c \<noteq> NaN"
  by (cases x) (simp_all add: or_else_def)

lemma or_else_NaN: "or_else NaN c = c"
  by (simp add: or_else_def)

text \<open>
  C8 (as amended).  For every input record, \<^verbatim>\<open>runSimulation\<close> replaces each missing or
  non-numeric field by zero, and the program timeline by 36, before any computation;
  no field of \<^verbatim>\<open>numericData\<close> is NaN.  The engine is total, and whenever no field is
  infinite every number of its result is a number.
\<close>

theorem missing_fields_coerced:
  "list_all2 (\<lambda>v x. x \<noteq> NaN \<and> (Number v = NaN \<longrightarrow> x = Fin 0))
     [ficoScore d, totalDebt d, monthlyIncome d, utilization d, accountsEnrolling d,
      positiveAccounts d, oldestAccountAge d, totalCreditLimit d, monthsInProgram d]
     [ficoScore (numericData d), totalDebt (numericData d), monthlyIncome (numericData d),
      utilization (numericData d), accountsEnrolling (numericData d),
      positiveAccounts (numericData d), oldestAccountAge (numericData d),
      totalCreditLimit (numericData d), monthsInProgram (numericData d)]
   \<and> programTimeline (numericData d) \<noteq> NaN
   \<and> (Number (programTimeline d) = NaN \<longrightarrow> programTimeline (numericData d) = Fin 36)
   \<and> (finite_profile d \<longrightarrow> numeric_result (runSimulation d))"
  by (simp add: numericData_def or_else_not_NaN or_else_NaN numeric_result_finite)

text \<open>A record with nothing but the scenario: every numeric field is missing or blank.\<close>

theorem blank_record_result:
  "ficoScore (numericData \<lparr> ficoScore = Undefined, totalDebt = Str [], monthlyIncome = Str ''n/a'',
       utilization = Str [], accountsEnrolling = Undefined, positiveAccounts = Null,
       oldestAccountAge = Undefined, programTimeline = Undefined, totalCreditLimit = Str [],
       monthsInProgram = Undefined, scenarioType = Str ''pre-enrollment'',
       securedCard = Undefined, creditBuilder = Undefined, authorizedUser = Undefined \<rparr>) = Fin 0
   \<and> programTimeline (numericData \<lparr> ficoScore = Undefined, totalDebt = Str [], monthlyIncome = Str ''n/a'',
       utilization = Str [], accountsEnrolling = Undefined, positiveAccounts = Null,
       oldestAccountAge = Undefined, programTimeline = Undefined, totalCreditLimit = Str [],
       monthsInProgram = Undefined, scenarioType = Str ''pre-enrollment'',
       securedCard = Undefined, creditBuilder = Undefined, authorizedUser = Undefined \<rparr>) = Fin 36
   \<and> numeric_result (runSimulation \<lparr> ficoScore = Undefined, totalDebt = Str [], monthlyIncome = Str ''n/a'',
       utilization = Str [], accountsEnrolling = Undefined, positiveAccounts = Null,
       oldestAccountAge = Undefined, programTimeline = Undefined, totalCreditLimit = Str [],
       monthsInProgram = Undefined, scenarioType = Str ''pre-enrollment'',
       securedCard = Undefined, creditBuilder = Undefined, authorizedUser = Undefined \<rparr>)"
proof -
  let ?d = "\<lparr> ficoScore = Undefined, totalDebt = Str [], monthlyIncome = Str ''n/a'',
       utilization = Str [], accountsEnrolling = Undefined, positiveAccounts = Null,
       oldestAccountAge = Undefined, programTimeline = Undefined, totalCreditLimit = Str [],
       monthsInProgram = Undefined, scenarioType = Str ''pre-enrollment'',
       securedCard = Undefined, creditBuilder = Undefined, authorizedUser = Undefined \<rparr>"
  have n: "Number (ficoScore ?d) = NaN" "Number (programTimeline ?d) = NaN" by simp_all
  have s: "StringToNumber [] = Fin 0" "StringToNumber ''n/a'' = NaN"
    by (simp_all add: str_eval cong: let_weak_cong)
  have f: "finite_profile ?d"
    by (simp add: finite_profile_def convertible_def finite_double_def between_def
        max_double_def s)
  show ?thesis
    using missing_fields_coerced [of ?d] n f by simp
qed

text \<open>
  C8 as stated fails on infinite fields: the strings "Infinity" are numeric, the
  coercion keeps them, and the projected score is NaN.
\<close>

theorem infinity_strings_result:
  "projectedScore (runSimulation ((profile_A (Num (Fin 1)))\<lparr> ficoScore := Str ''Infinity'',
      positiveAccounts := Str ''Infinity'' \<rparr>)) = NaN"
  by (simp add: profile_A_def engine_eval str_eval cong: let_weak_cong)

section \<open>The milestones\<close>

lemma rnd_whole:
  assumes "\<bar>n\<bar> \<le> 2000"
  shows "rnd (of_int n) = Fin (of_int n)"
  by (rule rnd_of_int) (use assms in simp)

lemma whole_add:
  assumes "\<bar>a + b\<bar> \<le> 2000"
  shows "js_add (Fin (of_int a)) (Fin (of_int b)) = Fin (of_int (a + b))"
  using rnd_whole [OF assms] by simp

lemma whole_sub:
  assumes "\<bar>a - b\<bar> \<le> 2000"
  shows "js_sub (Fin (of_int a)) (Fin (of_int b)) = Fin (of_int (a - b))"
  using rnd_whole [OF assms] by (simp add: js_sub_Fin)

text \<open>The low point is a whole number from 300 up to the initial score.\<close>

lemma low_point_whole:
  assumes "finite_profile d" "ficoScore (numericData d) = Fin (of_int n)" "300 \<le> n" "n \<le> 850"
  obtains l where "lowPointScore (runSimulation d) = Fin (of_int l)" "300 \<le> l" "l \<le> n"
proof (cases "scenarioType d = Str ''pre-enrollment''")
  case True
  note fin = numericData_finite [OF assms(1)]
  have "whole_between 20 150
      (calculateWorstCaseImpact (numericData d) (profile_weights (numericData d)))"
    by (rule impact_whole [OF fin(4) fin(1) fin(5) profile_weights_range])
  then obtain k where k:
    "calculateWorstCaseImpact (numericData d) (profile_weights (numericData d)) = Fin (of_int k)"
    "20 \<le> k" "k \<le> 150" by (rule whole_betweenE)
  have "js_sub (Fin (of_int n)) (Fin (of_int k)) = Fin (of_int (n - k))"
    by (rule whole_sub) (use assms k in simp)
  then have "lowPointScore (runSimulation d) = Fin (of_int (max 300 (n - k)))"
    using True assms(2) k(1)
    by (simp add: run_fields scenario_def numericData_scenario Let_def max_def)
  then show ?thesis using that [of "max 300 (n - k)"] assms k by simp
next
  case False
  then have "lowPointScore (runSimulation d) = Fin (of_int n)"
    by (simp add: low_point_other assms(2))
  then show ?thesis using that [of n] assms by simp
qed

text \<open>The projected score is a whole number from the low point up to 850.\<close>

lemma projected_whole:
  assumes "js_le (Fin 0) g" "300 \<le> l" "l \<le> 850"
  obtains p where
    "Math_min (Fin 850) (Math_round (js_add (Fin (of_int l)) g)) = Fin (of_int p)"
    "l \<le> p" "p \<le> 850"
proof -
  have l: "rnd (of_int l) = Fin (of_int l)" by (rule rnd_whole) (use assms in simp)
  have s: "js_le (Fin (of_int l)) (js_add (Fin (of_int l)) g)"
  proof (rule nonnegE [OF assms(1)])
    assume "g = PInf"
    then show ?thesis by simp
  next
    fix r assume r: "g = Fin r" "0 \<le> r"
    have "js_le (rnd (of_int l)) (rnd (of_int l + r))" by (rule rnd_mono) (use r in simp)
    then show ?thesis by (simp add: r l)
  qed
  show ?thesis
  proof (cases "js_add (Fin (of_int l)) g")
    case NaN
    then show ?thesis using s by simp
  next
    case PInf
    then show ?thesis using that [of 850] assms by simp
  next
    case NInf
    then show ?thesis using s by simp
  next
    case (Fin q)
    then have q: "of_int l \<le> q" using s by simp
    have "of_int l \<le> q + 1 / 2" using q by simp
    then have fl: "l \<le> \<lfloor>q + 1 / 2\<rfloor>" by (simp add: le_floor_iff)
    show ?thesis
    proof (cases "\<lfloor>q + 1 / 2\<rfloor> < 850")
      case True
      then have "Math_min (Fin 850) (Math_round (js_add (Fin (of_int l)) g))
          = Fin (of_int \<lfloor>q + 1 / 2\<rfloor>)"
        using Fin by simp
      then show ?thesis using that [of "\<lfloor>q + 1 / 2\<rfloor>"] fl True by simp
    next
      case False
      then have "\<not> (of_int \<lfloor>q + 1 / 2\<rfloor> :: rat) < 850"
        by (metis of_int_less_iff of_int_numeral)
      then have "Math_min (Fin 850) (Math_round (js_add (Fin (of_int l)) g)) = Fin (of_int 850)"
        using Fin by simp
      then show ?thesis using that [of 850] assms by simp
    qed
  qed
qed

text \<open>A milestone: the low point plus a rounded fraction of the total gain.\<close>

lemma milestone_whole:
  assumes "0 \<le> t" "t \<le> 850" "0 \<le> l" "l \<le> 850" "0 < c" "c \<le> 1"
  obtains k where
    "js_add (Fin (of_int l)) (Math_round (js_mul (Fin (of_int t)) (Fin c))) = Fin (of_int (l + k))"
    "0 \<le> k" "k \<le> t"
proof -
  have t: "rnd (of_int t) = Fin (of_int t)" by (rule rnd_whole) (use assms in simp)
  have "of_int t * c \<le> (of_int t :: rat) * 1"
    by (rule mult_left_mono) (use assms in simp_all)
  then have "between 0 (of_int t) (rnd (of_int t * c))"
    by (intro rnd_between [OF _ _ rnd_zero t]) (use assms in simp_all)
  then obtain x where x: "rnd (of_int t * c) = Fin x" "0 \<le> x" "x \<le> of_int t"
    by (rule betweenE)
  have k0: "0 \<le> \<lfloor>x + 1 / 2\<rfloor>" using x(2) by simp
  have "x + 1 / 2 < of_int t + 1" using x(3) by simp
  then have "x + 1 / 2 < of_int (t + 1)" by simp
  then have "\<lfloor>x + 1 / 2\<rfloor> < t + 1" by (simp only: floor_less_iff)
  then have kt: "\<lfloor>x + 1 / 2\<rfloor> \<le> t" by simp
  have "js_add (Fin (of_int l)) (Fin (of_int \<lfloor>x + 1 / 2\<rfloor>)) = Fin (of_int (l + \<lfloor>x + 1 / 2\<rfloor>))"
    by (rule whole_add) (use assms k0 kt in simp)
  then have "js_add (Fin (of_int l)) (Math_round (js_mul (Fin (of_int t)) (Fin c)))
      = Fin (of_int (l + \<lfloor>x + 1 / 2\<rfloor>))"
    by (simp add: x(1))
  then show ?thesis using that [of "\<lfloor>x + 1 / 2\<rfloor>"] k0 kt by blast
qed

lemma lit_fraction:
  "\<exists>c. lit (15 / 100) = Fin c \<and> 0 < c \<and> c \<le> 1"
  "\<exists>c. lit (65 / 100) = Fin c \<and> 0 < c \<and> c \<le> 1"
proof -
  have "lit (15 / 100) = Fin (5404319552844595 / 36028797018963968)"
    "lit (65 / 100) = Fin (5854679515581645 / 9007199254740992)"
    by (simp_all add: lit_values)
  moreover have "(0 :: rat) < 5404319552844595 / 36028797018963968"
    "(5404319552844595 / 36028797018963968 :: rat) \<le> 1"
    "(0 :: rat) < 5854679515581645 / 9007199254740992"
    "(5854679515581645 / 9007199254740992 :: rat) \<le> 1"
    by simp_all
  ultimately show "\<exists>c. lit (15 / 100) = Fin c \<and> 0 < c \<and> c \<le> 1"
    "\<exists>c. lit (65 / 100) = Fin c \<and> 0 < c \<and> c \<le> 1"
    by blast+
qed

text \<open>
  C6 (as amended).  Whenever the score is a whole number from 300 to 850, no field is
  infinite and the recovery months are not negative (the weights never are), the
  projected score is at least the low point, and the three milestones lie between the
  low point and the projected score; the engine does not clamp them again.
\<close>

theorem milestones_ordered:
  assumes "finite_profile d"
    and "whole_between 300 850 (ficoScore (numericData d))"
    and "js_ge (recoveryMonths (runSimulation d)) (Fin 0)"
  shows "js_le (lowPointScore (runSimulation d)) (projectedScore (runSimulation d))
    \<and> milestoneDipScore (runSimulation d) = lowPointScore (runSimulation d)
    \<and> js_le (lowPointScore (runSimulation d)) (milestoneStabilizationScore (runSimulation d))
    \<and> js_le (milestoneStabilizationScore (runSimulation d)) (projectedScore (runSimulation d))
    \<and> js_le (lowPointScore (runSimulation d)) (milestoneRecoveryScore (runSimulation d))
    \<and> js_le (milestoneRecoveryScore (runSimulation d)) (projectedScore (runSimulation d))"
proof -
  let ?r = "runSimulation d"
  obtain n where n: "ficoScore (numericData d) = Fin (of_int n)" "300 \<le> n" "n \<le> 850"
    using assms(2) by (rule whole_betweenE)
  obtain l where l: "lowPointScore ?r = Fin (of_int l)" "300 \<le> l" "l \<le> n"
    using assms(1) n by (rule low_point_whole)
  have wr: "weight_range (weights ?r)" by (simp add: run_fields profile_weights_range)
  have m: "js_le (Fin 0) (recoveryMonths ?r)" using assms(3) by (simp add: js_ge_def)
  have g: "js_le (Fin 0) (totalPotentialGain (numericData d) (weights ?r) (recoveryMonths ?r))"
    by (rule gain_nonneg [OF wr m])
  obtain p where p: "projectedScore ?r = Fin (of_int p)" "l \<le> p" "p \<le> 850"
    unfolding run_scores(1) l(1)
    by (rule projected_whole [OF g l(2)]) (use l n in simp_all)
  have t: "js_sub (Fin (of_int p)) (Fin (of_int l)) = Fin (of_int (p - l))"
    by (rule whole_sub) (use p l in simp)
  obtain c1 where c1: "lit (15 / 100) = Fin c1" "0 < c1" "c1 \<le> 1"
    using lit_fraction(1) by blast
  obtain c2 where c2: "lit (65 / 100) = Fin c2" "0 < c2" "c2 \<le> 1"
    using lit_fraction(2) by blast
  have b: "0 \<le> p - l" "p - l \<le> 850" "0 \<le> l" "l \<le> 850" using p l n by simp_all
  obtain k1 where k1: "js_add (Fin (of_int l))
      (Math_round (js_mul (Fin (of_int (p - l))) (Fin c1))) = Fin (of_int (l + k1))"
    "0 \<le> k1" "k1 \<le> p - l"
    by (rule milestone_whole [OF b c1(2,3)])
  obtain k2 where k2: "js_add (Fin (of_int l))
      (Math_round (js_mul (Fin (of_int (p - l))) (Fin c2))) = Fin (of_int (l + k2))"
    "0 \<le> k2" "k2 \<le> p - l"
    by (rule milestone_whole [OF b c2(2,3)])
  have st: "milestoneStabilizationScore ?r = Fin (of_int (min n (l + k1)))"
    unfolding run_scores(3) p(1) l(1) t c1(1) k1(1) run_fields(1) n(1)
    by (simp add: min_def)
  have re: "milestoneRecoveryScore ?r = Fin (of_int (l + k2))"
    unfolding run_scores(4) p(1) l(1) t c2(1) k2(1) by simp
  show ?thesis
    unfolding st re p(1) l(1) run_fields(6)
    using p l k1 k2 by (simp add: not_less)
qed

theorem milestones_ordered_scenario_A:
  "js_le (lowPointScore (runSimulation (profile_A (Num (Fin 1)))))
      (projectedScore (runSimulation (profile_A (Num (Fin 1)))))
   \<and> milestoneDipScore (runSimulation (profile_A (Num (Fin 1))))
       = lowPointScore (runSimulation (profile_A (Num (Fin 1))))
   \<and> js_le (lowPointScore (runSimulation (profile_A (Num (Fin 1)))))
       (milestoneStabilizationScore (runSimulation (profile_A (Num (Fin 1)))))
   \<and> js_le (milestoneStabilizationScore (runSimulation (profile_A (Num (Fin 1)))))
       (projectedScore (runSimulation (profile_A (Num (Fin 1)))))
   \<and> js_le (lowPointScore (runSimulation (profile_A (Num (Fin 1)))))
       (milestoneRecoveryScore (runSimulation (profile_A (Num (Fin 1)))))
   \<and> js_le (milestoneRecoveryScore (runSimulation (profile_A (Num (Fin 1)))))
       (projectedScore (runSimulation (profile_A (Num (Fin 1)))))"
proof -
  have "whole_between 300 850 (ficoScore (numericData (profile_A (Num (Fin 1)))))"
    by (simp add: profile_A_def numericData_def or_else_def whole_between_def is_int_def)
  moreover have "js_ge (recoveryMonths (runSimulation (profile_A (Num (Fin 1))))) (Fin 0)"
    by (simp add: run_fields scenario_def profile_A_def numericData_def or_else_def Let_def
        js_ge_def)
  ultimately show ?thesis
    using milestones_ordered [OF profile_A_finite] by blast
qed

section \<open>Repeated invocations\<close>

lemma setprop_holds:
  assumes "holds s b w t"
  shows "holds s b (w\<lparr> paymentHistory := v \<rparr>) (setprop b ''paymentHistory'' v t)"
    "holds s b (w\<lparr> weight_set.utilization := v \<rparr>) (setprop b ''utilization'' v t)"
    "holds s b (w\<lparr> accountAge := v \<rparr>) (setprop b ''accountAge'' v t)"
    "holds s b (w\<lparr> creditMix := v \<rparr>) (setprop b ''creditMix'' v t)"
    "holds s b (w\<lparr> newCredit := v \<rparr>) (setprop b ''newCredit'' v t)"
  using assms by (simp_all add: holds_def setprop_def weights_object_def)

lemma getprop_holds:
  assumes "holds s b w t"
  shows "getprop t b ''paymentHistory'' = paymentHistory w"
    "getprop t b ''utilization'' = weight_set.utilization w"
    "getprop t b ''accountAge'' = accountAge w"
    "getprop t b ''creditMix'' = creditMix w"
    "getprop t b ''newCredit'' = newCredit w"
  using assms by (simp_all add: holds_def getprop_def weights_object_def)



text \<open>Every rule on the object does what the rule on the weight set does.\<close>

lemma tier_st:
  assumes "holds s b w t"
  shows "holds s b (tier_high w) (tier_high_st b t)"
    and "holds s b (tier_low w) (tier_low_st b t)"
  unfolding tier_high_def tier_high_st_def tier_low_def tier_low_st_def
  by (intro setprop_holds assms)+

lemma dti_rule_st:
  assumes "holds s b w t"
  shows "holds s b (dti_rule w) (dti_rule_st b t)"
proof -
  let ?u = "Math_min (lit (45 / 100)) (js_add (weight_set.utilization w) (lit (5 / 100)))"
  have 1: "holds s b (w\<lparr> weight_set.utilization := ?u \<rparr>) (setprop b ''utilization'' ?u t)"
    by (rule setprop_holds [OF assms])
  show ?thesis
    unfolding dti_rule_def dti_rule_st_def Let_def getprop_holds [OF assms] getprop_holds [OF 1]
    by (rule setprop_holds [OF 1])
qed

lemma overall_rule_st:
  assumes "holds s b w t"
  shows "holds s b (overall_rule w) (overall_rule_st b t)"
  unfolding overall_rule_def overall_rule_st_def getprop_holds [OF assms]
  by (rule setprop_holds [OF assms])

lemma anchors_rule_st:
  assumes "holds s b w t"
  shows "holds s b (anchors_rule w) (anchors_rule_st b t)"
proof -
  let ?p = "Math_max (lit (30 / 100)) (js_sub (paymentHistory w) (lit (5 / 100)))"
  have 1: "holds s b (w\<lparr> paymentHistory := ?p \<rparr>) (setprop b ''paymentHistory'' ?p t)"
    by (rule setprop_holds [OF assms])
  show ?thesis
    unfolding anchors_rule_def anchors_rule_st_def Let_def getprop_holds [OF assms]
      getprop_holds [OF 1]
    by (rule setprop_holds [OF 1])
qed

lemma age_st:
  assumes "holds s b w t"
  shows "holds s b (age_young w) (age_young_st b t)"
    and "holds s b (age_old w) (age_old_st b t)"
proof -
  let ?a = "Math_max (lit (5 / 100)) (js_sub (accountAge w) (lit (5 / 100)))"
  have 1: "holds s b (w\<lparr> accountAge := ?a \<rparr>) (setprop b ''accountAge'' ?a t)"
    by (rule setprop_holds [OF assms])
  show "holds s b (age_young w) (age_young_st b t)"
    unfolding age_young_def age_young_st_def Let_def getprop_holds [OF assms]
      getprop_holds [OF 1]
    by (rule setprop_holds [OF 1])
  show "holds s b (age_old w) (age_old_st b t)"
    unfolding age_old_def age_old_st_def getprop_holds [OF assms]
    by (rule setprop_holds [OF assms])
qed

lemma properties_holds:
  assumes "holds s b w t"
  shows "properties t b = weights_object w"
  using assms by (simp add: holds_def properties_def)

lemma normalize_st:
  assumes "holds s b w t"
  shows "holds s b (normalize w) (normalize_st b t)"
proof -
  let ?n = "\<lambda>x. parseFloat_toFixed 4 (js_div x (weight_sum w))"
  have sum: "foldl js_add (Fin 0) (map snd (properties t b)) = weight_sum w"
    by (simp add: properties_holds [OF assms] weights_object_def weight_sum_def)
  have keys: "map fst (properties t b)
      = [''paymentHistory'', ''utilization'', ''accountAge'', ''creditMix'', ''newCredit'']"
    by (simp add: properties_holds [OF assms] weights_object_def)
  let ?w1 = "w\<lparr> paymentHistory := ?n (paymentHistory w) \<rparr>"
  let ?t1 = "setprop b ''paymentHistory'' (?n (paymentHistory w)) t"
  have 1: "holds s b ?w1 ?t1" by (rule setprop_holds [OF assms])
  let ?w2 = "?w1\<lparr> weight_set.utilization := ?n (weight_set.utilization w) \<rparr>"
  let ?t2 = "setprop b ''utilization'' (?n (weight_set.utilization w)) ?t1"
  have 2: "holds s b ?w2 ?t2" by (rule setprop_holds [OF 1])
  let ?w3 = "?w2\<lparr> accountAge := ?n (accountAge w) \<rparr>"
  let ?t3 = "setprop b ''accountAge'' (?n (accountAge w)) ?t2"
  have 3: "holds s b ?w3 ?t3" by (rule setprop_holds [OF 2])
  let ?w4 = "?w3\<lparr> creditMix := ?n (creditMix w) \<rparr>"
  let ?t4 = "setprop b ''creditMix'' (?n (creditMix w)) ?t3"
  have 4: "holds s b ?w4 ?t4" by (rule setprop_holds [OF 3])
  let ?w5 = "?w4\<lparr> newCredit := ?n (newCredit w) \<rparr>"
  let ?t5 = "setprop b ''newCredit'' (?n (newCredit w)) ?t4"
  have 5: "holds s b ?w5 ?t5" by (rule setprop_holds [OF 4])
  have "normalize_st b t = ?t5"
    unfolding normalize_st_def Let_def sum keys
    using getprop_holds [OF assms] getprop_holds [OF 1] getprop_holds [OF 2]
      getprop_holds [OF 3] getprop_holds [OF 4]
    by simp
  moreover have "normalize w = ?w5" by (simp add: normalize_def Let_def)
  ultimately show ?thesis using 5 by simp
qed

lemma alloc_holds:
  "alloc (weights_object w) s
     = (fresh s, (s\<lparr> fresh := Suc (fresh s) \<rparr>)\<lparr> cells := (cells s)(fresh s \<mapsto> weights_object w) \<rparr>)"
  by (simp add: alloc_def)

text \<open>
  \<^verbatim>\<open>calculateWeights\<close> over the store allocates one object, at the next free address,
  and leaves in it the weights of the functional model; it changes nothing else.
\<close>

lemma calculateWeights_st_holds:
  "\<exists>t. calculateWeights_st f d i p a l s = (fresh s, t)
       \<and> holds (s\<lparr> fresh := Suc (fresh s) \<rparr>) (fresh s) (calculateWeights f d i p a l) t"
proof -
  let ?s = "s\<lparr> fresh := Suc (fresh s) \<rparr>"
  let ?b = "fresh s"
  define s0 where "s0 = ?s\<lparr> cells := (cells s)(fresh s \<mapsto> weights_object baseWeights) \<rparr>"
  have a: "alloc [(''paymentHistory'', lit (35 / 100)), (''utilization'', lit (30 / 100)),
                  (''accountAge'', lit (15 / 100)), (''creditMix'', lit (10 / 100)),
                  (''newCredit'', lit (10 / 100))] s = (?b, s0)"
    using alloc_holds [of baseWeights s] by (simp add: s0_def weights_object_def baseWeights_def)
  have 0: "holds ?s ?b baseWeights s0" by (simp add: holds_def s0_def)
  define s1 where "s1 = (if js_ge f (Fin 740) then tier_high_st ?b s0
                else if js_le f (Fin 580) then tier_low_st ?b s0 else s0)"
  have 1: "holds ?s ?b (adjust_tier f baseWeights) s1"
    using tier_st [OF 0] 0 by (simp add: adjust_tier_def s1_def)
  define s2 where "s2 = (if js_gt (debt_to_income d i) (lit (45 / 100))
                then dti_rule_st ?b s1 else s1)"
  have 2: "holds ?s ?b (adjust_dti d i (adjust_tier f baseWeights)) s2"
    using dti_rule_st [OF 1] 1 by (simp add: adjust_dti_def s2_def Let_def)
  define s3 where "s3 = (if js_gt l (Fin 0)
                then let trueOverallUtilization = js_mul (js_div d l) (Fin 100)
                     in if js_lt trueOverallUtilization (Fin 30) then overall_rule_st ?b s2 else s2
                else s2)"
  have 3: "holds ?s ?b (adjust_overall d l (adjust_dti d i (adjust_tier f baseWeights))) s3"
    using overall_rule_st [OF 2] 2 by (simp add: adjust_overall_def s3_def Let_def)
  define s4 where "s4 = (if js_gt p (Fin 0) then anchors_rule_st ?b s3 else s3)"
  have 4: "holds ?s ?b (adjust_anchors p
      (adjust_overall d l (adjust_dti d i (adjust_tier f baseWeights)))) s4"
    using anchors_rule_st [OF 3] 3 by (simp add: adjust_anchors_def s4_def)
  define s5 where "s5 = (if js_lt a (Fin 4) then age_young_st ?b s4
                else if js_gt a (Fin 10) then age_old_st ?b s4 else s4)"
  have 5: "holds ?s ?b (adjusted_weights f d i p a l) s5"
    using age_st [OF 4] 4 by (simp add: adjust_age_def s5_def adjusted_weights_def)
  have 6: "holds ?s ?b (calculateWeights f d i p a l) (normalize_st ?b s5)"
    unfolding calculateWeights_def by (rule normalize_st [OF 5])
  have "calculateWeights_st f d i p a l s = (?b, normalize_st ?b s5)"
    unfolding calculateWeights_st_def a
    by (simp add: Let_def s1_def s2_def s3_def s4_def s5_def)
  then show ?thesis using 6 by blast
qed

lemma read_weights_holds:
  assumes "holds s b w t"
  shows "read_weights t b = w"
  by (simp add: read_weights_def getprop_holds [OF assms])

lemma runSimulation_st_eq:
  "runSimulation_st d s
     = (runSimulation d, fresh s,
        s\<lparr> cells := (cells s)(fresh s \<mapsto> weights_object (weights (runSimulation d))),
           fresh := Suc (fresh s) \<rparr>)"
proof -
  let ?nd = "numericData d"
  obtain t where t: "calculateWeights_st (ficoScore ?nd) (totalDebt ?nd) (monthlyIncome ?nd)
        (positiveAccounts ?nd) (oldestAccountAge ?nd) (totalCreditLimit ?nd) s = (fresh s, t)"
    "holds (s\<lparr> fresh := Suc (fresh s) \<rparr>) (fresh s) (profile_weights ?nd) t"
    unfolding profile_weights_def using calculateWeights_st_holds by blast
  have "runSimulation_st d s = (assemble ?nd (profile_weights ?nd), fresh s, t)"
    by (simp add: runSimulation_st_def Let_def t(1) read_weights_holds [OF t(2)])
  moreover have "t = s\<lparr> cells := (cells s)(fresh s \<mapsto> weights_object (profile_weights ?nd)),
           fresh := Suc (fresh s) \<rparr>"
    using t(2) by (simp add: holds_def)
  moreover have "weights (assemble ?nd (profile_weights ?nd)) = profile_weights ?nd"
    by (simp add: assemble_def Let_def split_beta)
  ultimately show ?thesis by (simp add: runSimulation_def Let_def)
qed


text \<open>
  C9.  The result of \<^verbatim>\<open>runSimulation\<close> does not depend on the store it runs in: it is
  the result of the functional model, the same for every store.  Of two invocations on
  the same input, one after the other, the second returns the same record; its weights
  are a new object, the object of the first result is left as it was, and so is every
  object that existed before.
\<close>

theorem repeated_runs:
  "fst (runSimulation_st d s) = fst (runSimulation_st d s')
   \<and> fst (runSimulation_st d s) = runSimulation d
   \<and> (let (r1, b1, s1) = runSimulation_st d s;
           (r2, b2, s2) = runSimulation_st d s1
       in r2 = r1 \<and> b2 \<noteq> b1 \<and> cells s2 b1 = cells s1 b1
          \<and> (\<forall>a. a < fresh s \<longrightarrow> cells s2 a = cells s a))"
  by (simp add: runSimulation_st_eq)

theorem repeated_runs_scenario_A:
  "let (r1, b1, s1) = runSimulation_st (profile_A (Num (Fin 1)))
                        \<lparr> cells = [0 \<mapsto> [(''paymentHistory'', Fin 1)]], fresh = 1 \<rparr>;
       (r2, b2, s2) = runSimulation_st (profile_A (Num (Fin 1))) s1
   in r1 = runSimulation (profile_A (Num (Fin 1))) \<and> r2 = r1 \<and> b2 \<noteq> b1
      \<and> cells s2 b1 = cells s1 b1 \<and> cells s2 0 = Some [(''paymentHistory'', Fin 1)]"
  using repeated_runs [of "profile_A (Num (Fin 1))"
      "\<lparr> cells = [0 \<mapsto> [(''paymentHistory'', Fin 1)]], fresh = 1 \<rparr>"
      "\<lparr> cells = [0 \<mapsto> [(''paymentHistory'', Fin 1)]], fresh = 1 \<rparr>"]
  by (simp add: split_beta Let_def)

end
